theory Spec2Isabelle
  imports Main
begin

section \<open>Designation derivation\<close>

text \<open>
  The nested function \<open>get_designation\<close> of \<open>scrape_employees\<close> (scraper.py, lines 26-34),
  on Python's unbounded integers:
  \<^verbatim>\<open>
  def get_designation(exp: int) -> str:
      if exp < 3:
          return "System Engineer"
      elif 3 <= exp < 5:
          return "Data Engineer"
      elif 5 <= exp < 10:
          return "Senior Data Engineer"
      else:
          return "Lead"
  \<close>
\<close>

definition get_designation :: "int \<Rightarrow> string" where
  "get_designation exp =
     (if exp < 3 then ''System Engineer''
      else if 3 \<le> exp \<and> exp < 5 then ''Data Engineer''
      else if 5 \<le> exp \<and> exp < 10 then ''Senior Data Engineer''
      else ''Lead'')"

text \<open>
  The bands as the specification's table writes them: an optional inclusive lower edge, an
  optional exclusive upper edge, and the label. This definition follows the specification,
  not the code; the theorem below compares the two.
\<close>

type_synonym band = "int option \<times> int option \<times> string"

definition spec_bands :: "band list" where
  "spec_bands =
     [(None, Some 3, ''System Engineer''),
      (Some 3, Some 5, ''Data Engineer''),
      (Some 5, Some 10, ''Senior Data Engineer''),
      (Some 10, None, ''Lead'')]"

fun in_band :: "band \<Rightarrow> int \<Rightarrow> bool" where
  "in_band (lo, hi, _) y =
     ((case lo of None \<Rightarrow> True | Some l \<Rightarrow> l \<le> y) \<and>
      (case hi of None \<Rightarrow> True | Some h \<Rightarrow> y < h))"

fun band_label :: "band \<Rightarrow> string" where
  "band_label (_, _, l) = l"

section \<open>Fetching with bounded retries\<close>

text \<open>
  Exceptions are values. \<open>RequestException\<close> stands for
  \<open>requests.exceptions.RequestException\<close> and its subclasses (connection failures,
  timeouts, the \<open>HTTPError\<close> that \<open>raise_for_status\<close> raises for a non-2xx answer, a body
  that is not JSON); the others are the built-in exceptions that the table library raises
  while the response is normalised. Each carries its message.
\<close>

datatype error =
    RequestException string
  | ValueError string
  | TypeError string
  | KeyError string
  | OverflowError string

fun is_RequestException :: "error \<Rightarrow> bool" where
  "is_RequestException (RequestException _) = True"
| "is_RequestException _ = False"

text \<open>
  What the function does to the outside world, in order: \<open>EvGet a\<close> is the HTTP GET of
  attempt \<open>a\<close>, \<open>EvPrint k e\<close> the line "Attempt k failed: e" and \<open>EvSleep s\<close> the call
  \<open>time.sleep(s)\<close>.
\<close>

datatype event = EvGet nat | EvPrint nat error | EvSleep nat

text \<open>
  The loop of \<open>scrape_employees\<close> (scraper.py, lines 16-64). The argument \<open>body\<close> gives,
  for each attempt number, what the \<open>try\<close> block (lines 18-55) does at that attempt: it
  raises an exception or returns the normalised table. The \<open>for\<close> loop over
  \<open>range(max_retries)\<close> is a recursion over the list of the attempt numbers still to run;
  the trace of events is threaded through.
  \<^verbatim>\<open>
  for attempt in range(max_retries):
      try:
          ...
          return df[[...]]
      except requests.exceptions.RequestException as e:
          print(f"Attempt {attempt+1} failed: {e}")
          if attempt == max_retries - 1:
              raise
          time.sleep(2 ** attempt)  # Exponential backoff
  raise ValueError("Failed to fetch data after retries")
  \<close>
\<close>

fun retry_loop ::
  "(nat \<Rightarrow> error + 'a) \<Rightarrow> int \<Rightarrow> nat list \<Rightarrow> event list \<Rightarrow> (error + 'a) \<times> event list" where
  "retry_loop body max_retries [] tr =
     (Inl (ValueError ''Failed to fetch data after retries''), tr)"
| "retry_loop body max_retries (attempt # rest) tr =
     (case body attempt of
        Inr df \<Rightarrow> (Inr df, tr @ [EvGet attempt])
      | Inl e \<Rightarrow>
          if is_RequestException e then
            (if int attempt = max_retries - 1
             then (Inl e, tr @ [EvGet attempt, EvPrint (attempt + 1) e])
             else retry_loop body max_retries rest
                    (tr @ [EvGet attempt, EvPrint (attempt + 1) e, EvSleep (2 ^ attempt)]))
          else (Inl e, tr @ [EvGet attempt]))"

text \<open>\<open>range(max_retries)\<close>: empty when \<open>max_retries\<close> is not positive.\<close>

definition range_py :: "int \<Rightarrow> nat list" where
  "range_py n = [0 ..< nat n]"

definition scrape_loop :: "(nat \<Rightarrow> error + 'a) \<Rightarrow> int \<Rightarrow> (error + 'a) \<times> event list" where
  "scrape_loop body max_retries = retry_loop body max_retries (range_py max_retries) []"

text \<open>The events of a failed attempt that is followed by a retry.\<close>

definition failed_round :: "(nat \<Rightarrow> error + 'a) \<Rightarrow> nat \<Rightarrow> event list" where
  "failed_round body a =
     (case body a of
        Inl e \<Rightarrow> [EvGet a, EvPrint (a + 1) e, EvSleep (2 ^ a)]
      | Inr _ \<Rightarrow> [])"

definition sleeps :: "event list \<Rightarrow> nat list" where
  "sleeps tr = concat (map (\<lambda>ev. case ev of EvSleep s \<Rightarrow> [s] | _ \<Rightarrow> []) tr)"

definition transient :: "(nat \<Rightarrow> error + 'a) \<Rightarrow> nat \<Rightarrow> bool" where
  "transient body a = (case body a of Inl e \<Rightarrow> is_RequestException e | Inr _ \<Rightarrow> False)"

section \<open>Response bodies and data frames\<close>

text \<open>
  The value of \<open>response.json()\<close>. The model covers the bodies the program is written for
  and the simplest ones it is not: a JSON array of flat objects whose values are \<open>null\<close>,
  integers or strings (\<open>Records\<close>; a Python list of dicts, keys in document order), and a
  body that is one bare scalar (\<open>Scalar\<close>). JSON floats and booleans, nested values, and a
  top-level object are outside this model.
\<close>

datatype scalar = JNull | JInt int | JStr string

type_synonym raw_record = "(string \<times> scalar) list"

datatype json = Records "raw_record list" | Scalar scalar

text \<open>
  A cell of a data frame: \<open>CNaN\<close> is the float \<open>nan\<close> that the library puts where a
  record has no such key or where a numeric column holds \<open>null\<close>, \<open>CNone\<close> is Python's
  \<open>None\<close> in a column of objects, \<open>CNA\<close> is the missing value of the nullable integer
  type \<open>Int64\<close>. An integer cell holds the value that the column stores: in a column of
  floats that is the integer rounded to the nearest binary64 number.
\<close>

datatype cell = CNaN | CNone | CInt int | CStr string | CNA

type_synonym row = "(string \<times> cell) list"

text \<open>
  A data frame: the column labels in order, and the rows in order, each row pairing every
  column label with its cell, in the order of the labels.
\<close>

record dataframe =
  columns :: "string list"
  rows :: "row list"

definition bind :: "error + 'a \<Rightarrow> ('a \<Rightarrow> error + 'b) \<Rightarrow> error + 'b" where
  "bind m f = (case m of Inl e \<Rightarrow> Inl e | Inr v \<Rightarrow> f v)"

text \<open>Running a fallible function over a column, in row order; the first exception wins.\<close>

fun map_err :: "('a \<Rightarrow> error + 'b) \<Rightarrow> 'a list \<Rightarrow> error + 'b list" where
  "map_err f [] = Inr []"
| "map_err f (x # xs) =
     (case f x of
        Inl e \<Rightarrow> Inl e
      | Inr y \<Rightarrow> (case map_err f xs of Inl e \<Rightarrow> Inl e | Inr ys \<Rightarrow> Inr (y # ys)))"

text \<open>
  \<open>pd.DataFrame(data)\<close>. For a list of dicts the columns are the keys in the order in which
  they first occur; a record without a key gets \<open>nan\<close> there. A column that holds no string
  and at least one integer is numeric; if it also holds a missing value it is a column of
  floats, where \<open>null\<close> becomes \<open>nan\<close> and every integer is rounded to a float. Any other
  column is a column of objects and keeps \<open>None\<close>. A bare \<open>null\<close> gives the empty frame,
  any other bare scalar is refused.
\<close>

definition in_int64 :: "int \<Rightarrow> bool" where
  "in_int64 n = (- 9223372036854775808 \<le> n \<and> n < 9223372036854775808)"

text \<open>
  The integer that a float holds after an integer has been stored in it: unchanged below
  \<open>2 ^ 53 = 9007199254740992\<close>, else rounded to 53 significant bits, ties to the even
  neighbour. \<open>halvings a\<close> is the number of low bits that do not fit.
\<close>

function halvings :: "int \<Rightarrow> nat" where
  "halvings a = (if a < 9007199254740992 then 0 else Suc (halvings (a div 2)))"
  by pat_completeness auto
termination
  by (relation "measure nat") auto

definition round_f64 :: "int \<Rightarrow> int" where
  "round_f64 n =
     (let a = \<bar>n\<bar>; e = halvings a; q = a div 2 ^ e; r = a mod 2 ^ e
      in if e = 0 then n
         else sgn n * 2 ^ e * (if 2 ^ e < 2 * r \<or> (2 * r = 2 ^ e \<and> odd q) then q + 1 else q))"

definition first_seen :: "'a list \<Rightarrow> 'a list" where
  "first_seen xs = fold (\<lambda>k acc. if k \<in> set acc then acc else acc @ [k]) xs []"

definition raw_cell :: "raw_record \<Rightarrow> string \<Rightarrow> cell" where
  "raw_cell r c =
     (case map_of r c of
        None \<Rightarrow> CNaN
      | Some JNull \<Rightarrow> CNone
      | Some (JInt n) \<Rightarrow> CInt n
      | Some (JStr s) \<Rightarrow> CStr s)"

fun is_CInt :: "cell \<Rightarrow> bool" where
  "is_CInt (CInt _) = True"
| "is_CInt _ = False"

fun is_CStr :: "cell \<Rightarrow> bool" where
  "is_CStr (CStr _) = True"
| "is_CStr _ = False"

definition numeric_column :: "cell list \<Rightarrow> bool" where
  "numeric_column cs = ((\<exists>c \<in> set cs. is_CInt c) \<and> \<not> (\<exists>c \<in> set cs. is_CStr c))"

definition has_null :: "cell list \<Rightarrow> bool" where
  "has_null cs = (CNone \<in> set cs \<or> CNaN \<in> set cs)"

definition infer_cell :: "raw_record list \<Rightarrow> string \<Rightarrow> cell \<Rightarrow> cell" where
  "infer_cell recs c v =
     (let col = map (\<lambda>r. raw_cell r c) recs
      in if numeric_column col \<and> has_null col
         then (case v of CNone \<Rightarrow> CNaN | CInt n \<Rightarrow> CInt (round_f64 n) | _ \<Rightarrow> v)
         else v)"

definition pd_DataFrame :: "json \<Rightarrow> error + dataframe" where
  "pd_DataFrame data =
     (case data of
        Records recs \<Rightarrow>
          (let cols = first_seen (concat (map (map fst) recs))
           in Inr \<lparr>columns = cols,
                   rows = map (\<lambda>r. map (\<lambda>c. (c, infer_cell recs c (raw_cell r c))) cols) recs\<rparr>)
      | Scalar JNull \<Rightarrow> Inr \<lparr>columns = [], rows = []\<rparr>
      | Scalar _ \<Rightarrow> Inl (ValueError ''DataFrame constructor not properly called!''))"

text \<open>
  The cell of a row under a label. Every caller has checked that the label is a column of
  the frame, so the default is never reached on a frame whose rows follow its labels.
\<close>

definition cell_at :: "row \<Rightarrow> string \<Rightarrow> cell" where
  "cell_at r c = (case map_of r c of Some v \<Rightarrow> v | None \<Rightarrow> CNaN)"

text \<open>\<open>df[c]\<close> for one label: the column, or \<open>KeyError\<close>.\<close>

definition get_column :: "dataframe \<Rightarrow> string \<Rightarrow> error + cell list" where
  "get_column df c =
     (if c \<in> set (columns df) then Inr (map (\<lambda>r. cell_at r c) (rows df)) else Inl (KeyError c))"

section \<open>Text and numbers\<close>

text \<open>
  \<open>str.lower()\<close> on the ASCII letters. No other character lowers to \<open>x\<close>, which is the only
  letter the program looks for, so the bytes of other characters are left as they are.
\<close>

definition lower_char :: "char \<Rightarrow> char" where
  "lower_char c =
     (let n = (of_char c :: nat) in if 65 \<le> n \<and> n \<le> 90 then char_of (n + 32) else c)"

definition lower :: "string \<Rightarrow> string" where
  "lower s = map lower_char s"

definition is_digit :: "char \<Rightarrow> bool" where
  "is_digit c = (let n = (of_char c :: nat) in 48 \<le> n \<and> n \<le> 57)"

definition digit_val :: "char \<Rightarrow> int" where
  "digit_val c = of_char c - 48"

definition digits_val :: "string \<Rightarrow> int" where
  "digits_val ds = foldl (\<lambda>a c. 10 * a + digit_val c) 0 ds"

text \<open>The ASCII whitespace that number parsing skips: space, tab, LF, VT, FF, CR.\<close>

definition is_space :: "char \<Rightarrow> bool" where
  "is_space c = (let n = (of_char c :: nat) in n = 32 \<or> (9 \<le> n \<and> n \<le> 13))"

definition strip :: "string \<Rightarrow> string" where
  "strip s = rev (dropWhile is_space (rev (dropWhile is_space s)))"

text \<open>
  The ASCII characters that Python counts as whitespace: the six above and the four
  separators FS, GS, RS, US. Texts are byte strings here; what Python does with whitespace
  and digits outside ASCII is not modelled, and no statement below is about such a text.
\<close>

definition is_py_space :: "char \<Rightarrow> bool" where
  "is_py_space c =
     (let n = (of_char c :: nat) in n = 32 \<or> (9 \<le> n \<and> n \<le> 13) \<or> (28 \<le> n \<and> n \<le> 31))"

definition py_strip :: "string \<Rightarrow> string" where
  "py_strip s = rev (dropWhile is_py_space (rev (dropWhile is_py_space s)))"


text \<open>The decimal digits of a number that is not negative, and \<open>str\<close> of an integer.\<close>

function digits_of :: "int \<Rightarrow> string" where
  "digits_of n =
     (if n < 10 then [char_of (48 + n)] else digits_of (n div 10) @ [char_of (48 + n mod 10)])"
  by pat_completeness auto
termination
  by (relation "measure nat") auto

definition str_int :: "int \<Rightarrow> string" where
  "str_int i = (if i < 0 then CHR ''-'' # digits_of (- i) else digits_of i)"

text \<open>
  \<open>str(p)\<close> of a cell that is not a float; \<open>str_in_column\<close> below adds the trailing
  \<open>.0\<close> of a whole number in a column of floats.
\<close>

fun py_str :: "cell \<Rightarrow> string" where
  "py_str (CStr s) = s"
| "py_str (CInt i) = str_int i"
| "py_str CNone = ''None''"
| "py_str CNaN = ''nan''"
| "py_str CNA = ''<NA>''"

text \<open>An optional sign in front of a text.\<close>

fun split_sign :: "string \<Rightarrow> int \<times> string" where
  "split_sign [] = (1, [])"
| "split_sign (c # cs) =
     (if c = CHR ''-'' then (- 1, cs) else if c = CHR ''+'' then (1, cs) else (1, c # cs))"

section \<open>Reading numbers out of text\<close>

text \<open>
  The result of \<open>pd.to_numeric(..., errors='coerce')\<close> for one value: an integer
  (\<open>Whole\<close>), a float that holds a whole number (\<open>FloatWhole\<close>), a float that does not (a
  fraction or an infinity), or \<open>nan\<close>.
\<close>

datatype numeric = Whole int | FloatWhole int | NotWhole | Missing

text \<open>
  The value \<open>sg * m * 10 ^ k\<close> of a literal with a point or an exponent, which is read as
  a float. The parser's own rounding of long literals is not modelled beyond the rounding of
  the value to a float.
\<close>

definition scale :: "int \<Rightarrow> int \<Rightarrow> int \<Rightarrow> numeric" where
  "scale sg m k =
     (if 0 \<le> k then FloatWhole (round_f64 (sg * m * 10 ^ nat k))
      else if 10 ^ nat (- k) dvd m then FloatWhole (round_f64 (sg * (m div 10 ^ nat (- k))))
      else NotWhole)"

text \<open>The exponent of a literal: nothing, or \<open>e\<close>/\<open>E\<close>, an optional sign and digits.\<close>

definition exponent_part :: "string \<Rightarrow> int option" where
  "exponent_part r =
     (case r of
        [] \<Rightarrow> Some 0
      | c # t \<Rightarrow>
          if c = CHR ''e'' \<or> c = CHR ''E'' then
            (case split_sign t of
               (sg, ds) \<Rightarrow>
                 if ds \<noteq> [] \<and> list_all is_digit ds then Some (sg * digits_val ds)
                 else None)
          else None)"

text \<open>
  A decimal literal: an optional sign, digits with an optional point among them (at least one
  digit in all), an optional exponent, and nothing else. \<open>None\<close> when the text is not one.
  No character is skipped or removed on the way. A literal of digits only is read as an
  integer.
\<close>

definition decimal_literal :: "string \<Rightarrow> numeric option" where
  "decimal_literal s =
     (case split_sign s of
        (sg, r0) \<Rightarrow>
          (let ip = takeWhile is_digit r0;
               r1 = dropWhile is_digit r0;
               has_dot = (r1 \<noteq> [] \<and> hd r1 = CHR ''.'');
               fp = (if has_dot then takeWhile is_digit (tl r1) else []);
               r2 = (if has_dot then dropWhile is_digit (tl r1) else r1)
           in if ip = [] \<and> fp = [] then None
              else if \<not> has_dot \<and> r2 = [] then Some (Whole (sg * digits_val ip))
              else (case exponent_part r2 of
                      None \<Rightarrow> None
                    | Some ex \<Rightarrow> Some (scale sg (digits_val (ip @ fp)) (ex - int (length fp))))))"

text \<open>
  \<open>pd.to_numeric\<close> with \<open>errors='coerce'\<close> on one text: surrounding whitespace is skipped, a
  decimal literal gives its value, the words for infinity and \<open>nan\<close> give those, and every
  other text is coerced to \<open>nan\<close>.
\<close>

definition to_numeric_str :: "string \<Rightarrow> numeric" where
  "to_numeric_str s =
     (case decimal_literal (strip s) of
        Some v \<Rightarrow> v
      | None \<Rightarrow>
          if lower s \<in> set [''inf'', ''+inf'', ''-inf'', ''infinity'', ''+infinity'', ''-infinity'']
          then NotWhole
          else Missing)"

fun to_numeric_cell :: "cell \<Rightarrow> numeric" where
  "to_numeric_cell (CInt n) = Whole n"
| "to_numeric_cell (CStr s) = to_numeric_str s"
| "to_numeric_cell _ = Missing"

text \<open>
  When one value of the column is a float or \<open>nan\<close>, \<open>pd.to_numeric\<close> returns a column
  of floats, and every integer in it is rounded to a float.
\<close>

fun is_Whole :: "numeric \<Rightarrow> bool" where
  "is_Whole (Whole _) = True"
| "is_Whole _ = False"

fun to_float64 :: "numeric \<Rightarrow> numeric" where
  "to_float64 (Whole n) = FloatWhole (round_f64 n)"
| "to_float64 v = v"

definition to_numeric :: "numeric list \<Rightarrow> numeric list" where
  "to_numeric vs = (if list_all is_Whole vs then vs else map to_float64 vs)"

text \<open>
  \<open>.astype('Int64')\<close> on the result: whole numbers in the range of \<open>int64\<close> stay,
  \<open>nan\<close> becomes the missing value \<open><NA>\<close>, and a value that is not whole or is out of
  range makes the whole conversion raise.
\<close>

fun Int64_cell :: "numeric \<Rightarrow> error + cell" where
  "Int64_cell (Whole n) =
     (if in_int64 n then Inr (CInt n)
      else Inl (TypeError ''cannot safely cast non-equivalent uint64 to int64''))"
| "Int64_cell (FloatWhole n) =
     (if in_int64 n then Inr (CInt n)
      else Inl (TypeError ''cannot safely cast non-equivalent float64 to int64''))"
| "Int64_cell Missing = Inr CNA"
| "Int64_cell NotWhole = Inl (TypeError ''cannot safely cast non-equivalent float64 to int64'')"

text \<open>
  \<open>int(s)\<close> of Python on an ASCII text, which \<open>.astype(int)\<close> applies to the strings of a
  column of objects: surrounding whitespace, an optional sign, and digits in groups
  separated by single underscores.
\<close>

fun no_double_underscore :: "string \<Rightarrow> bool" where
  "no_double_underscore (a # b # cs) =
     (\<not> (a = CHR ''_'' \<and> b = CHR ''_'') \<and> no_double_underscore (b # cs))"
| "no_double_underscore _ = True"

definition python_int :: "string \<Rightarrow> error + int" where
  "python_int s =
     (case split_sign (py_strip s) of
        (sg, r) \<Rightarrow>
          if r \<noteq> [] \<and> list_all (\<lambda>c. is_digit c \<or> c = CHR ''_'') r \<and> hd r \<noteq> CHR ''_'' \<and>
             last r \<noteq> CHR ''_'' \<and> no_double_underscore r
          then Inr (sg * digits_val (filter is_digit r))
          else Inl (ValueError (''invalid literal for int() with base 10: '' @ s)))"

section \<open>Normalisation\<close>

text \<open>
  A numeric column that holds \<open>nan\<close> is a column of floats, where a whole number prints
  with a trailing \<open>.0\<close> (and from sixteen digits on with an exponent, which is not
  modelled; no form of a number holds the letter \<open>x\<close>).
\<close>

definition float_column :: "cell list \<Rightarrow> bool" where
  "float_column cs = (numeric_column cs \<and> CNaN \<in> set cs)"

definition str_in_column :: "cell list \<Rightarrow> cell \<Rightarrow> string" where
  "str_in_column col v =
     (if float_column col \<and> is_CInt v then py_str v @ ''.0'' else py_str v)"

text \<open>
  \<open>col.astype(str)\<close>, which turns a missing value into its text "nan" or "None" (library
  versions that keep a missing value missing here differ in this one cell).
\<close>

definition astype_str :: "cell list \<Rightarrow> cell list" where
  "astype_str col = map (\<lambda>v. CStr (str_in_column col v)) col"

text \<open>
  \<open>col.astype(int)\<close> on one cell of a column of objects: \<open>nan\<close> and \<open>None\<close> cannot be
  converted, a string goes through \<open>int\<close>, and an integer outside the range of \<open>int64\<close>
  does not fit.
\<close>

definition int64_of :: "int \<Rightarrow> error + cell" where
  "int64_of n =
     (if in_int64 n then Inr (CInt n)
      else Inl (OverflowError ''Python int too large to convert to C long''))"

fun astype_int_cell :: "cell \<Rightarrow> error + cell" where
  "astype_int_cell (CInt n) = int64_of n"
| "astype_int_cell (CStr s) = (case python_int s of Inl e \<Rightarrow> Inl e | Inr n \<Rightarrow> int64_of n)"
| "astype_int_cell CNone =
     Inl (TypeError ''int() argument must be a string, a bytes-like object or a real number'')"
| "astype_int_cell _ = Inl (ValueError ''cannot convert float NaN to integer'')"

text \<open>
  \<open>col.astype(int)\<close> on a column. A column of objects is converted cell by cell. A column
  of floats that holds \<open>nan\<close> is refused. A column of integers in the range of \<open>int64\<close>
  stays; one whose integers all fit in 64 bits without sign is stored as \<open>uint64\<close>, and
  its conversion wraps around; any other column of integers is a column of objects.
\<close>

fun is_int64 :: "cell \<Rightarrow> bool" where
  "is_int64 (CInt n) = in_int64 n"
| "is_int64 _ = False"

fun is_uint64 :: "cell \<Rightarrow> bool" where
  "is_uint64 (CInt n) = (0 \<le> n \<and> n < 18446744073709551616)"
| "is_uint64 _ = False"

fun wrap_uint64 :: "cell \<Rightarrow> cell" where
  "wrap_uint64 (CInt n) = CInt (if in_int64 n then n else n - 18446744073709551616)"
| "wrap_uint64 v = v"

definition astype_int :: "cell list \<Rightarrow> error + cell list" where
  "astype_int col =
     (if list_ex (\<lambda>c. is_CStr c \<or> c = CNone) col then map_err astype_int_cell col
      else if CNaN \<in> set col
      then Inl (ValueError ''Cannot convert non-finite values (NA or inf) to integer'')
      else if list_all is_int64 col then Inr col
      else if list_all is_uint64 col then Inr (map wrap_uint64 col)
      else map_err astype_int_cell col)"

text \<open>
  Line 36, \<open>df['years_of_experience'].apply(get_designation)\<close>, on one cell. Every
  comparison with \<open>nan\<close> is false, so \<open>nan\<close> falls through to the last branch; \<open>None\<close> and
  a string cannot be compared with a number.
\<close>

fun apply_get_designation :: "cell \<Rightarrow> error + cell" where
  "apply_get_designation (CInt n) = Inr (CStr (get_designation n))"
| "apply_get_designation CNaN = Inr (CStr ''Lead'')"
| "apply_get_designation CNA = Inl (TypeError ''boolean value of NA is ambiguous'')"
| "apply_get_designation CNone =
     Inl (TypeError ''< not supported between instances of NoneType and int'')"
| "apply_get_designation (CStr _) =
     Inl (TypeError ''< not supported between instances of str and int'')"

text \<open>
  Line 39, \<open>df['first_name'] + ' ' + df['last_name']\<close>, on one cell each: strings are
  joined, a missing operand gives \<open>nan\<close>, and a string and a number cannot be added.
\<close>

fun add_str :: "cell \<Rightarrow> string \<Rightarrow> error + cell" where
  "add_str (CStr a) b = Inr (CStr (a @ b))"
| "add_str (CInt _) b = Inl (TypeError ''unsupported operand type(s) for +: int and str'')"
| "add_str _ b = Inr CNaN"

fun add_cells :: "cell \<times> cell \<Rightarrow> error + cell" where
  "add_cells (CStr a, CStr b) = Inr (CStr (a @ b))"
| "add_cells (CStr a, CInt _) = Inl (TypeError ''can only concatenate str (not int) to str'')"
| "add_cells (_, _) = Inr CNaN"

text \<open>
  Line 42, the function applied to each phone:
  \<^verbatim>\<open>lambda p: None if 'x' in str(p).lower() else p\<close>
\<close>

definition phone_lambda :: "cell list \<Rightarrow> cell \<Rightarrow> cell" where
  "phone_lambda col p = (if CHR ''x'' \<in> set (lower (str_in_column col p)) then CNone else p)"

text \<open>
  Line 42 as a whole:
  \<^verbatim>\<open>pd.to_numeric(df['phone'].apply(lambda ...), errors='coerce').astype('Int64')\<close>
\<close>

definition phone_clean :: "cell list \<Rightarrow> error + cell list" where
  "phone_clean col =
     map_err Int64_cell (to_numeric (map (\<lambda>p. to_numeric_cell (phone_lambda col p)) col))"

text \<open>A frame made of columns of the same length \<open>n\<close>.\<close>

definition frame_of_columns :: "nat \<Rightarrow> (string \<times> cell list) list \<Rightarrow> dataframe" where
  "frame_of_columns n cols =
     \<lparr>columns = map fst cols,
      rows = map (\<lambda>i. map (\<lambda>(c, vs). (c, vs ! i)) cols) [0 ..< n]\<rparr>"

text \<open>
  Lines 20-55 after the body has been parsed: \<open>pd.DataFrame(data)\<close>, the three derived
  columns, the conversions, and the selection of the ten columns of the result. Each
  statement that can raise is one \<open>bind\<close>, in the order of the source.
\<close>

definition normalize :: "json \<Rightarrow> error + dataframe" where
  "normalize data =
     bind (pd_DataFrame data) (\<lambda>df.
     bind (get_column df ''years_of_experience'') (\<lambda>yoe.
     bind (map_err apply_get_designation yoe) (\<lambda>designation.
     bind (get_column df ''first_name'') (\<lambda>first_name.
     bind (map_err (\<lambda>v. add_str v '' '') first_name) (\<lambda>first_sp.
     bind (get_column df ''last_name'') (\<lambda>last_name.
     bind (map_err add_cells (zip first_sp last_name)) (\<lambda>full_name.
     bind (get_column df ''phone'') (\<lambda>phone.
     bind (phone_clean phone) (\<lambda>phone_clean.
     bind (get_column df ''email'') (\<lambda>email.
     bind (get_column df ''gender'') (\<lambda>gender.
     bind (get_column df ''job_title'') (\<lambda>job_title.
     bind (get_column df ''department'') (\<lambda>department.
     bind (get_column df ''age'') (\<lambda>age.
     bind (astype_int age) (\<lambda>age_int.
     bind (astype_int yoe) (\<lambda>yoe_int.
     bind (get_column df ''salary'') (\<lambda>salary.
     bind (astype_int salary) (\<lambda>salary_int.
       Inr (frame_of_columns (length (rows df))
         [(''full_name'', astype_str full_name),
          (''email'', astype_str email),
          (''phone_clean'', phone_clean),
          (''gender'', astype_str gender),
          (''age'', age_int),
          (''job_title'', astype_str job_title),
          (''years_of_experience'', yoe_int),
          (''salary'', salary_int),
          (''department'', astype_str department),
          (''designation'', designation)])))))))))))))))))))"

text \<open>
  Lines 18-20. What the request of one attempt meets: no answer (a connection failure or a
  timeout, raised by \<open>requests.get\<close>), an answer with an error status (\<open>raise_for_status\<close>
  raises \<open>HTTPError\<close>), an answer whose body is not JSON (\<open>response.json\<close> raises the
  \<open>JSONDecodeError\<close> of the requests library), or an answer whose body parses. The three
  exceptions are request exceptions.
\<close>

datatype reply = NoAnswer string | ErrorStatus nat | NotJSON string | Parsed json

fun fetch :: "reply \<Rightarrow> error + json" where
  "fetch (NoAnswer m) = Inl (RequestException m)"
| "fetch (ErrorStatus c) = Inl (RequestException ''HTTPError'')"
| "fetch (NotJSON b) = Inl (RequestException ''JSONDecodeError'')"
| "fetch (Parsed data) = Inr data"

text \<open>
  The \<open>try\<close> block of one attempt (lines 18-55). \<open>http a\<close> is what lines 18-20 give at
  attempt \<open>a\<close>: the exception raised by \<open>requests.get\<close>, \<open>raise_for_status\<close> or
  \<open>response.json\<close>, or the parsed body.
\<close>

definition try_block :: "(nat \<Rightarrow> error + json) \<Rightarrow> nat \<Rightarrow> error + dataframe" where
  "try_block http a = bind (http a) normalize"

definition scrape_employees ::
  "(nat \<Rightarrow> error + json) \<Rightarrow> int \<Rightarrow> (error + dataframe) \<times> event list" where
  "scrape_employees http max_retries = scrape_loop (try_block http) max_retries"

text \<open>The record of the fixture \<open>sample_data\<close> of test_scraper.py.\<close>

definition sample_data :: "raw_record list" where
  "sample_data =
     [[(''id'', JInt 1), (''first_name'', JStr ''Jose''), (''last_name'', JStr ''Lopez''),
       (''email'', JStr ''test@email.com''), (''phone'', JStr ''+1-971-533-4552x1542''),
       (''gender'', JStr ''male''), (''age'', JInt 25), (''job_title'', JStr ''Project Manager''),
       (''years_of_experience'', JInt 1), (''salary'', JInt 8500),
       (''department'', JStr ''Product'')]]"

definition sample_table :: dataframe where
  "sample_table =
     \<lparr>columns = [''full_name'', ''email'', ''phone_clean'', ''gender'', ''age'', ''job_title'',
                 ''years_of_experience'', ''salary'', ''department'', ''designation''],
      rows = [[(''full_name'', CStr ''Jose Lopez''), (''email'', CStr ''test@email.com''),
               (''phone_clean'', CNA), (''gender'', CStr ''male''), (''age'', CInt 25),
               (''job_title'', CStr ''Project Manager''), (''years_of_experience'', CInt 1),
               (''salary'', CInt 8500), (''department'', CStr ''Product''),
               (''designation'', CStr ''System Engineer'')]]\<rparr>"

text \<open>
  Variations of the fixture: the same record without its phone, with a formatted phone that
  has no extension, and with an age that is no number.
\<close>

definition sample_without_phone :: "raw_record list" where
  "sample_without_phone = map (filter (\<lambda>(k, v). k \<noteq> ''phone'')) sample_data"

definition sample_formatted_phone :: "raw_record list" where
  "sample_formatted_phone = map (\<lambda>r. (''phone'', JStr ''+1-971-533-4552'') # r) sample_without_phone"


definition backoff_trace :: "(nat \<Rightarrow> error + json) \<Rightarrow> nat \<Rightarrow> event list" where
  "backoff_trace http k = concat (map (failed_round (try_block http)) [0 ..< k])"






text \<open>The column that \<open>pd.DataFrame\<close> builds for a key of the records.\<close>

definition raw_column :: "raw_record list \<Rightarrow> string \<Rightarrow> cell list" where
  "raw_column recs f = map (\<lambda>r. infer_cell recs f (raw_cell r f)) recs"

section \<open>The query system\<close>

text \<open>
  Data frames are objects: the store is the list of the frames allocated so far, and a
  reference is an index into it. No operation below overwrites an object; each one
  allocates the frame it builds, as the library does for \<open>copy\<close>, for indexing with a
  mask or with a list of labels, and for \<open>head\<close>. A Python name always refers to an
  object, so the statements about a query take a reference that is in the store.
\<close>

type_synonym store = "dataframe list"

definition alloc :: "store \<Rightarrow> dataframe \<Rightarrow> nat \<times> store" where
  "alloc h v = (length h, h @ [v])"

text \<open>
  The elementwise \<open>==\<close> of a column with a filter value: two integers or two strings are
  compared, an integer never equals a string, and a missing value (\<open>nan\<close>, \<open>None\<close>,
  \<open><NA>\<close>) equals nothing, not even a missing value.
\<close>

fun cell_eq :: "cell \<Rightarrow> cell \<Rightarrow> bool" where
  "cell_eq (CInt a) (CInt b) = (a = b)"
| "cell_eq (CStr a) (CStr b) = (a = b)"
| "cell_eq _ _ = False"

text \<open>\<open>df[col] == value\<close>, a mask with one truth value per row.\<close>

definition eq_mask :: "dataframe \<Rightarrow> string \<Rightarrow> cell \<Rightarrow> bool list" where
  "eq_mask df col v = map (\<lambda>r. cell_eq (cell_at r col) v) (rows df)"

text \<open>\<open>df[mask]\<close>: the rows whose mask is true, in their order.\<close>

definition mask_rows :: "dataframe \<Rightarrow> bool list \<Rightarrow> dataframe" where
  "mask_rows df m = \<lparr>columns = columns df, rows = map snd (filter fst (zip m (rows df)))\<rparr>"

text \<open>
  \<open>df[labels]\<close> for a list of labels: \<open>KeyError\<close> if one of them is no column, else the
  frame of these columns in the order of the list.
\<close>

definition select_columns :: "dataframe \<Rightarrow> string list \<Rightarrow> error + dataframe" where
  "select_columns df cs =
     (case filter (\<lambda>c. c \<notin> set (columns df)) cs of
        [] \<Rightarrow> Inr \<lparr>columns = cs, rows = map (\<lambda>r. map (\<lambda>c. (c, cell_at r c)) cs) (rows df)\<rparr>
      | c # _ \<Rightarrow> Inl (KeyError c))"

text \<open>
  \<open>df.head(n)\<close>, that is \<open>df.iloc[:n]\<close>: the first \<open>n\<close> rows, and for a negative \<open>n\<close> all
  rows but the last \<open>- n\<close>.
\<close>

definition head :: "int \<Rightarrow> dataframe \<Rightarrow> dataframe" where
  "head n df =
     \<lparr>columns = columns df,
      rows = (if 0 \<le> n then take (nat n) (rows df)
              else take (nat (int (length (rows df)) + n)) (rows df))\<rparr>"

text \<open>
  The loop over \<open>filters.items()\<close> (scraper.py, lines 81-83); \<open>r\<close> is the object that
  \<open>result_df\<close> names.
  \<^verbatim>\<open>
  for col, value in filters.items():
      if col in result_df.columns:
          result_df = result_df[result_df[col] == value]
  \<close>
\<close>

fun filter_loop :: "store \<Rightarrow> nat \<Rightarrow> (string \<times> cell) list \<Rightarrow> nat \<times> store" where
  "filter_loop h r [] = (r, h)"
| "filter_loop h r ((col, v) # rest) =
     (if col \<in> set (columns (h ! r))
      then (case alloc h (mask_rows (h ! r) (eq_mask (h ! r) col v)) of
              (r', h') \<Rightarrow> filter_loop h' r' rest)
      else filter_loop h r rest)"

text \<open>
  What \<open>dynamic_cli_query\<close> prints: the two numbers of the line "Displaying ... of ...
  rows" and the frame that is printed.
\<close>

record query_output =
  displaying :: int
  total :: nat
  shown :: dataframe

text \<open>
  \<open>dynamic_cli_query\<close> (scraper.py, lines 67-95). \<open>filters\<close> and \<open>columns\<close> are optional;
  \<open>None\<close> and an empty collection are both false in \<open>if filters:\<close> and \<open>if columns:\<close>. The
  dict \<open>filters\<close> is the list of its items in insertion order.
\<close>

definition truthy :: "'a list option \<Rightarrow> bool" where
  "truthy x = (case x of None \<Rightarrow> False | Some xs \<Rightarrow> xs \<noteq> [])"

definition dynamic_cli_query ::
  "store \<Rightarrow> nat \<Rightarrow> int \<Rightarrow> (string \<times> cell) list option \<Rightarrow> string list option \<Rightarrow>
   error + query_output \<times> store" where
  "dynamic_cli_query h df n filters cols =
     (case alloc h (h ! df) of
        (r0, h0) \<Rightarrow>
          (case (if truthy filters then filter_loop h0 r0 (the filters) else (r0, h0)) of
             (r1, h1) \<Rightarrow>
               bind (if truthy cols
                     then bind (select_columns (h1 ! r1)
                                  (filter (\<lambda>c. c \<in> set (columns (h1 ! r1))) (the cols)))
                            (\<lambda>v. Inr (alloc h1 v))
                     else Inr (r1, h1))
                 (\<lambda>(r2, h2).
                    case alloc h2 (head n (h2 ! r2)) of
                      (r3, h3) \<Rightarrow>
                        Inr (\<lparr>displaying = min n (int (length (rows (h2 ! r2)))),
                              total = length (rows (h2 ! r2)),
                              shown = h3 ! r3\<rparr>, h3))))"

text \<open>
  The same query on values, without the store: the rows that pass every filter naming a
  column, the requested columns that exist, and the first rows of the result.
\<close>

definition keeps :: "dataframe \<Rightarrow> (string \<times> cell) list \<Rightarrow> row \<Rightarrow> bool" where
  "keeps df fs r = list_all (\<lambda>(c, v). c \<in> set (columns df) \<longrightarrow> cell_eq (cell_at r c) v) fs"

definition project :: "string list \<Rightarrow> row \<Rightarrow> row" where
  "project cs r = map (\<lambda>c. (c, cell_at r c)) cs"

definition kept_rows :: "dataframe \<Rightarrow> (string \<times> cell) list option \<Rightarrow> row list" where
  "kept_rows df filters =
     (if truthy filters then filter (keeps df (the filters)) (rows df) else rows df)"

definition shown_columns :: "dataframe \<Rightarrow> string list \<Rightarrow> string list" where
  "shown_columns df cs = filter (\<lambda>c. c \<in> set (columns df)) cs"

definition query_frame ::
  "dataframe \<Rightarrow> (string \<times> cell) list option \<Rightarrow> string list option \<Rightarrow> dataframe" where
  "query_frame df filters cols =
     (if truthy cols
      then \<lparr>columns = shown_columns df (the cols),
            rows = map (project (shown_columns df (the cols))) (kept_rows df filters)\<rparr>
      else \<lparr>columns = columns df, rows = kept_rows df filters\<rparr>)"

text \<open>A frame whose labels are distinct and whose rows follow its labels.\<close>

definition wf_frame :: "dataframe \<Rightarrow> bool" where
  "wf_frame df = (distinct (columns df) \<and> list_all (\<lambda>r. map fst r = columns df) (rows df))"

text \<open>A normalised table of four employees, for the examples of the query system.\<close>

definition employee :: "string \<Rightarrow> cell \<Rightarrow> string \<Rightarrow> int \<Rightarrow> int \<Rightarrow> string \<Rightarrow> row" where
  "employee name phone gender age years department =
     [(''full_name'', CStr name), (''email'', CStr ''test@email.com''), (''phone_clean'', phone),
      (''gender'', CStr gender), (''age'', CInt age), (''job_title'', CStr ''Project Manager''),
      (''years_of_experience'', CInt years), (''salary'', CInt 8500),
      (''department'', CStr department), (''designation'', CStr (get_designation years))]"

definition query_table :: dataframe where
  "query_table =
     \<lparr>columns = [''full_name'', ''email'', ''phone_clean'', ''gender'', ''age'', ''job_title'',
                 ''years_of_experience'', ''salary'', ''department'', ''designation''],
      rows = [employee ''Jose Lopez'' (CInt 5551234) ''male'' 25 1 ''Product'',
              employee ''Ana Silva'' (CInt 5559876) ''female'' 31 7 ''Product'',
              employee ''Li Wei'' CNA ''male'' 40 12 ''Sales'',
              employee ''Ivan Petrov'' CNA ''male'' 29 4 ''Product'']\<rparr>"

section \<open>Theorems\<close>

subsection \<open>The retry loop\<close>

lemma retry_loop_run:
  "i \<le> k \<Longrightarrow> int k < mr \<Longrightarrow> (\<forall>j. i \<le> j \<and> j < k \<longrightarrow> transient body j) \<Longrightarrow>
   retry_loop body mr [i ..< nat mr] tr =
   retry_loop body mr [k ..< nat mr] (tr @ concat (map (failed_round body) [i ..< k]))"
proof (induction "k - i" arbitrary: i tr)
  case 0
  then show ?case by simp
next
  case (Suc d)
  then have ik: "i < k" and tri: "transient body i" by auto
  from tri obtain e where e: "body i = Inl e" "is_RequestException e"
    by (auto simp: transient_def split: sum.splits)
  have lst: "[i ..< nat mr] = i # [Suc i ..< nat mr]"
    using ik Suc.prems(2) by (simp add: upt_conv_Cons)
  have notlast: "int i \<noteq> mr - 1" using ik Suc.prems(2) by linarith
  have step: "retry_loop body mr [i ..< nat mr] tr =
     retry_loop body mr [Suc i ..< nat mr] (tr @ failed_round body i)"
    using e notlast by (simp add: lst failed_round_def)
  have IH: "retry_loop body mr [Suc i ..< nat mr] (tr @ failed_round body i) =
     retry_loop body mr [k ..< nat mr]
       ((tr @ failed_round body i) @ concat (map (failed_round body) [Suc i ..< k]))"
    using Suc.hyps(1) [of "Suc i"] Suc.hyps(2) Suc.prems ik by auto
  have "[i ..< k] = i # [Suc i ..< k]" using ik by (simp add: upt_conv_Cons)
  then show ?case using step IH by simp
qed

lemma scrape_loop_reaches:
  assumes "int k < mr" and "\<forall>j<k. transient body j"
  shows "scrape_loop body mr =
         retry_loop body mr (k # [Suc k ..< nat mr]) (concat (map (failed_round body) [0 ..< k]))"
proof -
  have "k < nat mr" using assms(1) by linarith
  then have "[k ..< nat mr] = k # [Suc k ..< nat mr]" by (simp add: upt_conv_Cons)
  then show ?thesis
    using retry_loop_run [of 0 k mr body "[]"] assms by (simp add: scrape_loop_def range_py_def)
qed

lemma sleeps_append: "sleeps (xs @ ys) = sleeps xs @ sleeps ys"
  by (simp add: sleeps_def)

lemma sleeps_failed_rounds:
  "\<forall>j<k. transient body j \<Longrightarrow>
   sleeps (concat (map (failed_round body) [0 ..< k])) = map (\<lambda>a. 2 ^ a) [0 ..< k]"
proof (induction k)
  case 0
  then show ?case by (simp add: sleeps_def)
next
  case (Suc k)
  then have "transient body k" by simp
  then have "sleeps (failed_round body k) = [2 ^ k]"
    by (auto simp: transient_def failed_round_def sleeps_def split: sum.splits)
  with Suc show ?case by (simp add: sleeps_append)
qed

lemma transient_try_block:
  "http j = Inl (RequestException c) \<Longrightarrow> transient (try_block http) j"
  by (simp add: transient_def try_block_def bind_def)

subsection \<open>Errors of the normalisation\<close>

lemma bind_InrE:
  assumes "bind m f = Inr v"
  obtains x where "m = Inr x" and "f x = Inr v"
  using assms by (cases m) (auto simp: bind_def)


lemma map_err_Inr:
  "map_err f xs = Inr ys \<Longrightarrow> length ys = length xs \<and> (\<forall>i<length xs. f (xs ! i) = Inr (ys ! i))"
proof (induction xs arbitrary: ys)
  case Nil
  then show ?case by simp
next
  case (Cons x xs)
  then obtain y ys' where y: "f x = Inr y" "map_err f xs = Inr ys'" "ys = y # ys'"
    by (auto split: sum.splits)
  with Cons.IH [of ys'] show ?case by (auto simp: nth_Cons split: nat.splits)
qed

















lemma cell_at_built:
  "c \<in> set cols \<Longrightarrow> cell_at (map (\<lambda>c. (c, g c)) cols) c = g c"
  by (simp add: cell_at_def map_of_map_restrict)

lemma get_column_pd_DataFrame:
  assumes "pd_DataFrame (Records recs) = Inr df" and "get_column df f = Inr col"
  shows "col = map (\<lambda>r. infer_cell recs f (raw_cell r f)) recs"
proof -
  let ?cols = "first_seen (concat (map (map fst) recs))"
  have df: "df = \<lparr>columns = ?cols,
      rows = map (\<lambda>r. map (\<lambda>c. (c, infer_cell recs c (raw_cell r c))) ?cols) recs\<rparr>"
    using assms(1) by (simp add: pd_DataFrame_def Let_def)
  have f: "f \<in> set ?cols" and col: "col = map (\<lambda>r. cell_at r f) (rows df)"
    using assms(2) by (auto simp: get_column_def df split: if_splits)
  show ?thesis
    unfolding col by (simp add: df cell_at_built [OF f] comp_def)
qed



lemma infer_cell_simps:
  "infer_cell recs f CNaN = CNaN"
  "infer_cell recs f (CStr s) = CStr s"
  "infer_cell recs f CNone = CNone \<or> infer_cell recs f CNone = CNaN"
  "is_CInt (infer_cell recs f (CInt n))"
  by (simp_all add: infer_cell_def Let_def)






subsection \<open>The phone column\<close>

lemma char_eq_code: "c = d \<longleftrightarrow> (of_char c :: nat) = of_char d"
  by (simp add: of_char_eq_iff)

lemma lower_char_x: "lower_char c = CHR ''x'' \<longleftrightarrow> c = CHR ''x'' \<or> c = CHR ''X''"
proof -
  define n where "n = (of_char c :: nat)"
  have low: "(of_char (lower_char c) :: nat) = (if 65 \<le> n \<and> n \<le> 90 then n + 32 else n)"
    by (simp add: lower_char_def Let_def n_def of_char_of)
  have "lower_char c = CHR ''x'' \<longleftrightarrow> (of_char (lower_char c) :: nat) = 120"
    by (subst char_eq_code) simp
  also have "\<dots> \<longleftrightarrow> n = 120 \<or> n = 88"
    unfolding low by auto
  also have "\<dots> \<longleftrightarrow> c = CHR ''x'' \<or> c = CHR ''X''"
    by (subst (1 2) char_eq_code) (simp add: n_def)
  finally show ?thesis .
qed

lemma x_in_lower: "CHR ''x'' \<in> set (lower s) \<longleftrightarrow> CHR ''x'' \<in> set s \<or> CHR ''X'' \<in> set s"
proof -
  have "CHR ''x'' \<in> set (lower s) \<longleftrightarrow> (\<exists>c\<in>set s. CHR ''x'' = lower_char c)"
    by (simp add: lower_def image_iff)
  then show ?thesis using lower_char_x by metis
qed

lemma first_seen_set: "set (first_seen xs) = set xs"
proof -
  have "set (fold (\<lambda>k acc. if k \<in> set acc then acc else acc @ [k]) xs acc) = set xs \<union> set acc" for acc
    by (induction xs arbitrary: acc) auto
  then show ?thesis by (simp add: first_seen_def)
qed

lemma to_numeric_Missing:
  "length (to_numeric vs) = length vs"
  "i < length vs \<Longrightarrow> vs ! i = Missing \<Longrightarrow> to_numeric vs ! i = Missing"
  by (simp_all add: to_numeric_def)

lemma phone_clean_missing:
  assumes "phone_clean col = Inr pc" and "i < length col"
    and "to_numeric_cell (phone_lambda col (col ! i)) = Missing"
  shows "pc ! i = CNA"
proof -
  let ?vs = "map (\<lambda>p. to_numeric_cell (phone_lambda col p)) col"
  have m: "map_err Int64_cell (to_numeric ?vs) = Inr pc"
    using assms(1) by (simp add: phone_clean_def)
  have i: "i < length (to_numeric ?vs)" using assms(2) by (simp add: to_numeric_Missing(1))
  have "to_numeric ?vs ! i = Missing"
    using assms(2,3) by (intro to_numeric_Missing(2)) simp_all
  then have "Int64_cell Missing = Inr (pc ! i)"
    using map_err_Inr [OF m] i by metis
  then show ?thesis by simp
qed


lemma pd_DataFrame_Records:
  "pd_DataFrame (Records recs) = Inr df \<Longrightarrow>
   columns df = first_seen (concat (map (map fst) recs)) \<and> length (rows df) = length recs"
  by (auto simp: pd_DataFrame_def Let_def)

lemma normalize_phone_cell:
  assumes "normalize (Records recs) = Inr t" and "i < length recs"
  shows "''phone'' \<in> set (concat (map (map fst) recs)) \<and> length (rows t) = length recs \<and>
         (to_numeric_cell
            (phone_lambda (raw_column recs ''phone'') (raw_column recs ''phone'' ! i)) = Missing \<longrightarrow>
          cell_at (rows t ! i) ''phone_clean'' = CNA)"
proof -
  from assms(1) obtain df phone pc c1 c2 c4 c5 c6 c7 c8 c9 c10 where
    df: "pd_DataFrame (Records recs) = Inr df" and
    ph: "get_column df ''phone'' = Inr phone" and
    pc: "phone_clean phone = Inr pc" and
    t: "t = frame_of_columns (length (rows df))
         [(''full_name'', c1), (''email'', c2), (''phone_clean'', pc), (''gender'', c4),
          (''age'', c5), (''job_title'', c6), (''years_of_experience'', c7), (''salary'', c8),
          (''department'', c9), (''designation'', c10)]"
    unfolding normalize_def by (elim bind_InrE) auto
  have len: "length (rows df) = length recs" and cols: "columns df = first_seen (concat (map (map fst) recs))"
    using pd_DataFrame_Records [OF df] by simp_all
  have phone: "phone = raw_column recs ''phone''"
    using get_column_pd_DataFrame [OF df ph] by (simp add: raw_column_def)
  have key: "''phone'' \<in> set (concat (map (map fst) recs))"
    using ph cols first_seen_set [of "concat (map (map fst) recs)"]
    by (auto simp: get_column_def split: if_splits)
  have lt: "length (rows t) = length recs"
    by (simp add: t frame_of_columns_def len)
  have cell: "cell_at (rows t ! i) ''phone_clean'' = pc ! i"
    using assms(2) by (simp add: t frame_of_columns_def len cell_at_def)
  have "i < length phone" using assms(2) by (simp add: phone raw_column_def)
  then have "to_numeric_cell (phone_lambda phone (phone ! i)) = Missing \<longrightarrow> pc ! i = CNA"
    using phone_clean_missing [OF pc] by simp
  with key lt cell show ?thesis by (simp add: phone)
qed

lemma raw_column_nth:
  "i < length recs \<Longrightarrow>
   raw_column recs f ! i = infer_cell recs f (raw_cell (recs ! i) f)"
  by (simp add: raw_column_def)

lemma str_in_column_CStr: "str_in_column col (CStr s) = s"
  by (simp add: str_in_column_def)

lemma phone_lambda_x:
  "CHR ''x'' \<in> set s \<or> CHR ''X'' \<in> set s \<Longrightarrow> phone_lambda col (CStr s) = CNone"
  by (simp add: phone_lambda_def str_in_column_CStr x_in_lower)

lemma phone_lambda_no_x:
  "CHR ''x'' \<notin> set s \<Longrightarrow> CHR ''X'' \<notin> set s \<Longrightarrow> phone_lambda col (CStr s) = CStr s"
  by (simp add: phone_lambda_def str_in_column_CStr x_in_lower)

lemma raw_phone_str:
  "map_of r f = Some (JStr s) \<Longrightarrow> infer_cell recs f (raw_cell r f) = CStr s"
  by (simp add: raw_cell_def infer_cell_simps)

lemma normalize_without_phone:
  "normalize (Records sample_without_phone) = Inl (KeyError ''phone'')"
  by code_simp

lemma normalize_mixed_phone:
  "(case normalize (Records (sample_data @ sample_without_phone)) of
      Inr t \<Rightarrow> cell_at (rows t ! 1) ''phone_clean'' = CNA | Inl _ \<Rightarrow> False)"
  by code_simp

lemma missing_cell:
  assumes "map_of r ''phone'' = None \<or> map_of r ''phone'' = Some JNull"
  shows "infer_cell recs ''phone'' (raw_cell r ''phone'') = CNaN \<or>
         infer_cell recs ''phone'' (raw_cell r ''phone'') = CNone"
  using assms infer_cell_simps(3) [of recs "''phone''"]
  by (auto simp: raw_cell_def infer_cell_simps(1))

lemma missing_text:
  "p = CNaN \<or> p = CNone \<Longrightarrow>
   (str_in_column col p = ''nan'' \<or> str_in_column col p = ''None'') \<and>
   CHR ''x'' \<notin> set (lower (str_in_column col p)) \<and>
   to_numeric_cell (phone_lambda col p) = Missing \<and>
   Int64_cell (to_numeric_cell (phone_lambda col p)) = Inr CNA"
  by (auto simp: str_in_column_def phone_lambda_def x_in_lower)

lemma normalize_formatted_phone_table:
  "normalize (Records sample_formatted_phone) = Inr sample_table"
  by code_simp

subsection \<open>The query on values\<close>

lemma mask_filter: "map snd (filter fst (zip (map P xs) xs)) = filter P xs"
  by (induction xs) auto

lemma mask_rows_eq_mask:
  "mask_rows df (eq_mask df col v) =
   \<lparr>columns = columns df, rows = filter (\<lambda>r. cell_eq (cell_at r col) v) (rows df)\<rparr>"
  by (simp add: mask_rows_def eq_mask_def mask_filter)

lemma keeps_Nil: "keeps df [] r"
  by (simp add: keeps_def)

lemma keeps_Cons:
  "keeps df ((c, v) # fs) r \<longleftrightarrow>
   (c \<in> set (columns df) \<longrightarrow> cell_eq (cell_at r c) v) \<and> keeps df fs r"
  by (simp add: keeps_def)

lemma keeps_Cons_fun:
  "keeps df ((c, v) # fs) =
   (\<lambda>r. (c \<in> set (columns df) \<longrightarrow> cell_eq (cell_at r c) v) \<and> keeps df fs r)"
  by (rule ext) (simp add: keeps_Cons)

lemma keeps_columns: "columns df = columns df' \<Longrightarrow> keeps df fs r = keeps df' fs r"
  by (simp add: keeps_def)

lemma filter_loop_spec:
  assumes "r < length h"
  shows "\<exists>r' h'. filter_loop h r fs = (r', h') \<and> r' < length h' \<and> length h \<le> length h' \<and>
           take (length h) h' = h \<and>
           h' ! r' = \<lparr>columns = columns (h ! r), rows = filter (keeps (h ! r) fs) (rows (h ! r))\<rparr>"
  using assms
proof (induction fs arbitrary: h r)
  case Nil
  then show ?case by (simp add: keeps_Nil)
next
  case (Cons f fs)
  obtain c v where f: "f = (c, v)" by (cases f)
  show ?case
  proof (cases "c \<in> set (columns (h ! r))")
    case False
    then show ?thesis using Cons.IH [OF Cons.prems] by (simp add: f keeps_Cons)
  next
    case True
    let ?d = "mask_rows (h ! r) (eq_mask (h ! r) c v)"
    let ?h = "h @ [?d]"
    have r: "length h < length ?h" by simp
    from Cons.IH [OF r] obtain r' h' where
      IH: "filter_loop ?h (length h) fs = (r', h')" "r' < length h'" "length ?h \<le> length h'"
        "take (length ?h) h' = ?h"
        "h' ! r' = \<lparr>columns = columns (?h ! length h),
                     rows = filter (keeps (?h ! length h) fs) (rows (?h ! length h))\<rparr>"
      by blast
    have d: "?h ! length h = ?d" by simp
    have cd: "columns ?d = columns (h ! r)" by (simp add: mask_rows_def)
    have rd: "rows ?d = filter (\<lambda>x. cell_eq (cell_at x c) v) (rows (h ! r))"
      by (simp add: mask_rows_eq_mask)
    have k: "keeps ?d fs = keeps (h ! r) fs"
      using keeps_columns [OF cd] by blast
    have run: "filter_loop h r (f # fs) = (r', h')"
      using True IH(1) by (simp add: f alloc_def)
    have tk: "take (length h) h' = h"
    proof -
      have "take (length h) h' = take (length h) (take (length ?h) h')"
        by (simp add: min_def)
      also have "\<dots> = h" by (simp only: IH(4)) simp
      finally show ?thesis .
    qed
    have val: "h' ! r' = \<lparr>columns = columns (h ! r),
        rows = filter (keeps (h ! r) (f # fs)) (rows (h ! r))\<rparr>"
      using True by (simp add: IH(5) d cd rd k f keeps_Cons_fun)
    from run IH(2,3) tk val show ?thesis by auto
  qed
qed


lemma select_columns_known:
  assumes "\<forall>c\<in>set cs. c \<in> set (columns df)"
  shows "select_columns df cs = Inr \<lparr>columns = cs, rows = map (project cs) (rows df)\<rparr>"
proof -
  have "filter (\<lambda>c. c \<notin> set (columns df)) cs = []"
    using assms by (simp add: filter_empty_conv)
  then show ?thesis by (simp add: select_columns_def project_def)
qed

lemma take_take_prefix:
  assumes "take (length b) c = b" and "take (length a) b = a" and "length a \<le> length b"
  shows "take (length a) c = a"
proof -
  have "take (length a) c = take (length a) (take (length b) c)"
    using assms(3) by (simp add: min_def)
  then show ?thesis by (simp add: assms(1,2))
qed

lemma filter_step:
  assumes "df < length h"
  shows "\<exists>r1 h1. (if truthy filters then filter_loop (h @ [h ! df]) (length h) (the filters)
                   else (length h, h @ [h ! df])) = (r1, h1) \<and>
           r1 < length h1 \<and> length h \<le> length h1 \<and> take (length h) h1 = h \<and>
           h1 ! r1 = \<lparr>columns = columns (h ! df), rows = kept_rows (h ! df) filters\<rparr>"
proof (cases "truthy filters")
  case False
  then show ?thesis by (simp add: kept_rows_def)
next
  case True
  let ?h0 = "h @ [h ! df]"
  have r0: "length h < length ?h0" by simp
  from filter_loop_spec [OF r0, of "the filters"] obtain r1 h1 where
    l: "filter_loop ?h0 (length h) (the filters) = (r1, h1)" "r1 < length h1"
       "length ?h0 \<le> length h1" "take (length ?h0) h1 = ?h0"
       "h1 ! r1 = \<lparr>columns = columns (?h0 ! length h),
                    rows = filter (keeps (?h0 ! length h) (the filters)) (rows (?h0 ! length h))\<rparr>"
    by blast
  have tk: "take (length h) h1 = h"
    by (rule take_take_prefix [OF l(4)]) simp_all
  have "h1 ! r1 = \<lparr>columns = columns (h ! df), rows = kept_rows (h ! df) filters\<rparr>"
    using True l(5) by (simp add: kept_rows_def)
  with True l(1,2,3) tk show ?thesis by auto
qed

lemma dynamic_cli_query_spec:
  assumes "df < length h"
  shows "\<exists>h'. dynamic_cli_query h df n filters cols =
           Inr (\<lparr>displaying = min n (int (length (rows (query_frame (h ! df) filters cols)))),
                 total = length (rows (query_frame (h ! df) filters cols)),
                 shown = head n (query_frame (h ! df) filters cols)\<rparr>, h') \<and>
           length h \<le> length h' \<and> take (length h) h' = h"
proof -
  let ?D = "h ! df"
  from filter_step [OF assms, of filters] obtain r1 h1 where
    f: "(if truthy filters then filter_loop (h @ [?D]) (length h) (the filters)
         else (length h, h @ [?D])) = (r1, h1)"
       "r1 < length h1" "length h \<le> length h1" "take (length h) h1 = h"
       "h1 ! r1 = \<lparr>columns = columns ?D, rows = kept_rows ?D filters\<rparr>"
    by blast
  let ?Q = "query_frame ?D filters cols"
  have "\<exists>r2 h2. (if truthy cols
                 then bind (select_columns (h1 ! r1)
                        (filter (\<lambda>c. c \<in> set (columns (h1 ! r1))) (the cols)))
                        (\<lambda>v. Inr (alloc h1 v))
                 else Inr (r1, h1)) = Inr (r2, h2) \<and> r2 < length h2 \<and>
            length h \<le> length h2 \<and> take (length h) h2 = h \<and> h2 ! r2 = ?Q"
  proof (cases "truthy cols")
    case False
    then show ?thesis using f by (simp add: query_frame_def)
  next
    case True
    let ?cs = "shown_columns ?D (the cols)"
    have cs: "filter (\<lambda>c. c \<in> set (columns (h1 ! r1))) (the cols) = ?cs"
      by (simp add: f(5) shown_columns_def)
    have "\<forall>c\<in>set ?cs. c \<in> set (columns (h1 ! r1))"
      by (simp add: f(5) shown_columns_def)
    then have sel: "select_columns (h1 ! r1) ?cs = Inr ?Q"
      using True by (simp add: select_columns_known query_frame_def f(5))
    have tk: "take (length h) (h1 @ [?Q]) = h"
      using f(3,4) by simp
    show ?thesis
      using True f(3) tk by (simp add: cs sel bind_def alloc_def)
  qed
  then obtain r2 h2 where
    p: "(if truthy cols
         then bind (select_columns (h1 ! r1)
                (filter (\<lambda>c. c \<in> set (columns (h1 ! r1))) (the cols)))
                (\<lambda>v. Inr (alloc h1 v))
         else Inr (r1, h1)) = Inr (r2, h2)"
       "r2 < length h2" "length h \<le> length h2" "take (length h) h2 = h" "h2 ! r2 = ?Q"
    by blast
  have run: "dynamic_cli_query h df n filters cols =
      Inr (\<lparr>displaying = min n (int (length (rows ?Q))), total = length (rows ?Q),
            shown = head n ?Q\<rparr>, h2 @ [head n ?Q])"
  proof -
    have a0: "alloc h (h ! df) = (length h, h @ [h ! df])" by (simp add: alloc_def)
    show ?thesis
      unfolding dynamic_cli_query_def
      by (simp only: a0 prod.case f(1) p(1))
         (simp only: bind_def sum.case prod.case alloc_def p(5) nth_append_length)
  qed
  have "take (length h) (h2 @ [head n ?Q]) = h" using p(3,4) by simp
  with run p(3) show ?thesis by auto
qed

lemma cell_eq_iff: "cell_eq a b \<longleftrightarrow> a = b \<and> (is_CInt a \<or> is_CStr a)"
  by (cases a; cases b) auto

lemma keeps_iff:
  "keeps df fs r \<longleftrightarrow>
   (\<forall>(c, v)\<in>set fs. c \<in> set (columns df) \<longrightarrow> cell_at r c = v \<and> (is_CInt v \<or> is_CStr v))"
  by (auto simp: keeps_def list_all_iff cell_eq_iff)

lemma rows_head_all: "int (length (rows df)) \<le> n \<Longrightarrow> rows (head n df) = rows df"
  by (simp add: head_def)

lemma wf_frame_field:
  assumes "wf_frame df" and "r \<in> set (rows df)"
  shows "c \<in> set (columns df) \<Longrightarrow> (c, cell_at r c) \<in> set r"
    and "(c, v) \<in> set r \<Longrightarrow> cell_at r c = v"
proof -
  have d: "distinct (map fst r)" and m: "map fst r = columns df"
    using assms by (auto simp: wf_frame_def list_all_iff)
  show "(c, cell_at r c) \<in> set r" if "c \<in> set (columns df)"
  proof -
    from that m have "c \<in> fst ` set r" by (metis set_map)
    then obtain v where "(c, v) \<in> set r" by force
    then show ?thesis using map_of_is_SomeI [OF d] by (simp add: cell_at_def)
  qed
  show "cell_at r c = v" if "(c, v) \<in> set r"
    using map_of_is_SomeI [OF d that] by (simp add: cell_at_def)
qed

lemma kept_rows_subset: "set (kept_rows df filters) \<subseteq> set (rows df)"
  by (auto simp: kept_rows_def)

lemma length_query_frame:
  "length (rows (query_frame df filters cols)) = length (kept_rows df filters)"
  by (simp add: query_frame_def)





subsection \<open>The fixture of the tests\<close>

lemma normalize_sample: "normalize (Records sample_data) = Inr sample_table"
  by code_simp

subsection \<open>Designation\<close>

text \<open>
  C2: for every integer number of years \<open>y\<close>, exactly one band of the table contains \<open>y\<close>
  (no gap, no overlap, negatives included), and the designation computed by the code is the
  label of that band: below 3 "System Engineer", from 3 below 5 "Data Engineer", from 5
  below 10 "Senior Data Engineer", from 10 on "Lead".
\<close>

theorem get_designation_partition:
  "(\<exists>!b. b \<in> set spec_bands \<and> in_band b y) \<and>
   (\<forall>b \<in> set spec_bands. in_band b y \<longrightarrow> get_designation y = band_label b) \<and>
   (y < 3 \<longrightarrow> get_designation y = ''System Engineer'') \<and>
   (3 \<le> y \<and> y < 5 \<longrightarrow> get_designation y = ''Data Engineer'') \<and>
   (5 \<le> y \<and> y < 10 \<longrightarrow> get_designation y = ''Senior Data Engineer'') \<and>
   (10 \<le> y \<longrightarrow> get_designation y = ''Lead'')"
proof -
  have one: "\<exists>!b. b \<in> set spec_bands \<and> in_band b y"
  proof -
    consider "y < 3" | "3 \<le> y \<and> y < 5" | "5 \<le> y \<and> y < 10" | "10 \<le> y"
      by linarith
    then show ?thesis
    proof cases
      case 1
      then show ?thesis
        by (intro ex1I [of _ "(None, Some 3, ''System Engineer'')"])
           (auto simp: spec_bands_def)
    next
      case 2
      then show ?thesis
        by (intro ex1I [of _ "(Some 3, Some 5, ''Data Engineer'')"])
           (auto simp: spec_bands_def)
    next
      case 3
      then show ?thesis
        by (intro ex1I [of _ "(Some 5, Some 10, ''Senior Data Engineer'')"])
           (auto simp: spec_bands_def)
    next
      case 4
      then show ?thesis
        by (intro ex1I [of _ "(Some 10, None, ''Lead'')"])
           (auto simp: spec_bands_def)
    qed
  qed
  have lab: "\<forall>b \<in> set spec_bands. in_band b y \<longrightarrow> get_designation y = band_label b"
    by (auto simp: spec_bands_def get_designation_def)
  have rest: "(y < 3 \<longrightarrow> get_designation y = ''System Engineer'') \<and>
   (3 \<le> y \<and> y < 5 \<longrightarrow> get_designation y = ''Data Engineer'') \<and>
   (5 \<le> y \<and> y < 10 \<longrightarrow> get_designation y = ''Senior Data Engineer'') \<and>
   (10 \<le> y \<longrightarrow> get_designation y = ''Lead'')"
    by (simp add: get_designation_def)
  from one lab rest show ?thesis by blast
qed

theorem get_designation_partition_witness:
  "(- 2 :: int) < 3 \<and> get_designation (- 2) = ''System Engineer'' \<and>
   get_designation 3 = ''Data Engineer'' \<and>
   get_designation 7 = ''Senior Data Engineer'' \<and> get_designation 10 = ''Lead'' \<and>
   (Some 3, Some 5, ''Data Engineer'') \<in> set spec_bands \<and>
   in_band (Some 3, Some 5, ''Data Engineer'') 4 \<and> get_designation 4 = ''Data Engineer''"
proof -
  have a: "get_designation (- 2) = ''System Engineer''"
    using get_designation_partition [of "- 2"] by simp
  have b: "get_designation 3 = ''Data Engineer''"
    using get_designation_partition [of 3] by simp
  have c: "get_designation 7 = ''Senior Data Engineer''"
    using get_designation_partition [of 7] by simp
  have d: "get_designation 10 = ''Lead''"
    using get_designation_partition [of 10] by simp
  have m: "(Some 3, Some 5, ''Data Engineer'') \<in> set spec_bands"
    by (simp add: spec_bands_def)
  have i: "in_band (Some 3, Some 5, ''Data Engineer'') 4"
    by simp
  have e: "get_designation 4 = band_label (Some 3, Some 5, ''Data Engineer'')"
    using get_designation_partition [of 4] m i by blast
  from a b c d m i e show ?thesis by simp
qed

subsection \<open>Retry and backoff\<close>

text \<open>
  C1: let \<open>max_retries = n\<close> be at least 1 and let the attempts before attempt \<open>k\<close> (with
  \<open>k < n\<close>) all fail with a request exception. Then each of them is followed by its message
  and by a sleep of exactly \<open>2 ^ attempt\<close> seconds, so the sleeps up to attempt \<open>k\<close> are
  1, 2, 4, ...; if attempt \<open>k\<close> succeeds, the normalised table is returned at once; if
  attempt \<open>k\<close> is the last one and fails too, that very exception is raised again and nothing
  follows its message, in particular no sleep.
\<close>

theorem scrape_employees_backoff:
  assumes n: "1 \<le> n" and k: "int k < n"
    and fail: "\<forall>j<k. \<exists>c. http j = Inl (RequestException c)"
  shows "(\<forall>data df. http k = Inr data \<and> normalize data = Inr df \<longrightarrow>
            scrape_employees http n = (Inr df, backoff_trace http k @ [EvGet k])) \<and>
         (\<forall>c. int k = n - 1 \<and> http k = Inl (RequestException c) \<longrightarrow>
            scrape_employees http n =
              (Inl (RequestException c),
               backoff_trace http k @ [EvGet k, EvPrint (k + 1) (RequestException c)])) \<and>
         backoff_trace http k =
           concat (map (\<lambda>a. [EvGet a, EvPrint (a + 1) (projl (http a)), EvSleep (2 ^ a)]) [0 ..< k]) \<and>
         sleeps (backoff_trace http k) = map (\<lambda>a. 2 ^ a) [0 ..< k]"
proof -
  have tr: "\<forall>j<k. transient (try_block http) j"
    using fail transient_try_block by blast
  have reach: "scrape_employees http n =
      retry_loop (try_block http) n (k # [Suc k ..< nat n]) (backoff_trace http k)"
    using scrape_loop_reaches [OF k tr] by (simp add: scrape_employees_def backoff_trace_def)
  have ok: "\<forall>data df. http k = Inr data \<and> normalize data = Inr df \<longrightarrow>
            scrape_employees http n = (Inr df, backoff_trace http k @ [EvGet k])"
    by (simp add: reach try_block_def bind_def)
  have last: "\<forall>c. int k = n - 1 \<and> http k = Inl (RequestException c) \<longrightarrow>
            scrape_employees http n =
              (Inl (RequestException c),
               backoff_trace http k @ [EvGet k, EvPrint (k + 1) (RequestException c)])"
    by (simp add: reach try_block_def bind_def)
  have rounds: "\<forall>j<k. failed_round (try_block http) j =
      [EvGet j, EvPrint (j + 1) (projl (http j)), EvSleep (2 ^ j)]"
  proof (intro allI impI)
    fix j assume "j < k"
    then obtain c where "http j = Inl (RequestException c)" using fail by blast
    then show "failed_round (try_block http) j =
        [EvGet j, EvPrint (j + 1) (projl (http j)), EvSleep (2 ^ j)]"
      by (simp add: failed_round_def try_block_def bind_def)
  qed
  have shape: "backoff_trace http k =
      concat (map (\<lambda>a. [EvGet a, EvPrint (a + 1) (projl (http a)), EvSleep (2 ^ a)]) [0 ..< k])"
    unfolding backoff_trace_def
    by (rule arg_cong [where f = concat], rule map_cong) (use rounds in auto)
  have sl: "sleeps (backoff_trace http k) = map (\<lambda>a. 2 ^ a) [0 ..< k]"
    unfolding backoff_trace_def using sleeps_failed_rounds [OF tr] .
  from ok last shape sl show ?thesis by blast
qed

theorem scrape_employees_backoff_witness:
  "scrape_employees (\<lambda>a. if a < 2 then Inl (RequestException ''timeout'')
                          else Inr (Records sample_data)) 3 =
     (Inr sample_table,
      [EvGet 0, EvPrint 1 (RequestException ''timeout''), EvSleep 1,
       EvGet 1, EvPrint 2 (RequestException ''timeout''), EvSleep 2, EvGet 2]) \<and>
   scrape_employees (\<lambda>a. Inl (RequestException ''timeout'')) 3 =
     (Inl (RequestException ''timeout''),
      [EvGet 0, EvPrint 1 (RequestException ''timeout''), EvSleep 1,
       EvGet 1, EvPrint 2 (RequestException ''timeout''), EvSleep 2,
       EvGet 2, EvPrint 3 (RequestException ''timeout'')])"
proof -
  let ?h1 = "\<lambda>a::nat. if a < 2 then Inl (RequestException ''timeout'')
                          else (Inr (Records sample_data) :: error + json)"
  let ?h2 = "\<lambda>a::nat. (Inl (RequestException ''timeout'') :: error + json)"
  have u: "[0 ..< 2] = [0, Suc 0]" by (simp add: upt_conv_Cons numeral_2_eq_2)
  have a: "(1::int) \<le> 3" "int 2 < 3" by simp_all
  have f1: "\<forall>j<2. \<exists>c. ?h1 j = Inl (RequestException c)" by simp
  have f2: "\<forall>j<2. \<exists>c. ?h2 j = Inl (RequestException c)" by simp
  have "scrape_employees ?h1 3 = (Inr sample_table, backoff_trace ?h1 2 @ [EvGet 2])"
    using scrape_employees_backoff [OF a f1] normalize_sample by simp
  moreover have "backoff_trace ?h1 2 = [EvGet 0, EvPrint 1 (RequestException ''timeout''), EvSleep 1,
       EvGet 1, EvPrint 2 (RequestException ''timeout''), EvSleep 2]"
    using scrape_employees_backoff [OF a f1] by (simp add: u)
  moreover have "scrape_employees ?h2 3 = (Inl (RequestException ''timeout''),
      backoff_trace ?h2 2 @ [EvGet 2, EvPrint 3 (RequestException ''timeout'')])"
    using scrape_employees_backoff [OF a f2] by simp
  moreover have "backoff_trace ?h2 2 = [EvGet 0, EvPrint 1 (RequestException ''timeout''), EvSleep 1,
       EvGet 1, EvPrint 2 (RequestException ''timeout''), EvSleep 2]"
    using scrape_employees_backoff [OF a f2] by (simp add: u)
  ultimately show ?thesis by simp
qed




subsection \<open>Phone cleaning\<close>

text \<open>
  C3: a raw phone that is a text containing \<open>x\<close> or \<open>X\<close> anywhere is replaced by \<open>None\<close>
  before the numeric conversion, which turns it into the missing value; so in every table
  that the normalisation returns, the row of such a record has a null \<open>phone_clean\<close>.
\<close>

theorem phone_with_x_is_null:
  assumes "CHR ''x'' \<in> set s \<or> CHR ''X'' \<in> set s"
  shows "Int64_cell (to_numeric_cell (phone_lambda col (CStr s))) = Inr CNA \<and>
         (\<forall>recs t i. normalize (Records recs) = Inr t \<and> i < length recs \<and>
            map_of (recs ! i) ''phone'' = Some (JStr s) \<longrightarrow>
            cell_at (rows t ! i) ''phone_clean'' = CNA)"
proof -
  have cellwise: "Int64_cell (to_numeric_cell (phone_lambda c (CStr s))) = Inr CNA" for c
    using assms by (simp add: phone_lambda_x)
  have "cell_at (rows t ! i) ''phone_clean'' = CNA"
    if "normalize (Records recs) = Inr t" "i < length recs"
      "map_of (recs ! i) ''phone'' = Some (JStr s)" for recs t i
    using normalize_phone_cell [OF that(1,2)] assms
    by (simp add: raw_column_nth [OF that(2)] raw_phone_str [OF that(3)] phone_lambda_x)
  with cellwise show ?thesis by blast
qed

theorem phone_with_x_is_null_witness:
  "CHR ''x'' \<in> set ''+1-971-533-4552x1542'' \<and>
   normalize (Records sample_data) = Inr sample_table \<and>
   map_of (sample_data ! 0) ''phone'' = Some (JStr ''+1-971-533-4552x1542'') \<and>
   cell_at (rows sample_table ! 0) ''phone_clean'' = CNA \<and>
   Int64_cell (to_numeric_cell (phone_lambda [] (CStr ''001-242-533-8626X385''))) = Inr CNA"
proof -
  have a: "CHR ''x'' \<in> set ''+1-971-533-4552x1542''" by simp
  have b: "CHR ''x'' \<in> set ''001-242-533-8626X385'' \<or> CHR ''X'' \<in> set ''001-242-533-8626X385''"
    by simp
  have m: "map_of (sample_data ! 0) ''phone'' = Some (JStr ''+1-971-533-4552x1542'')"
    by (simp add: sample_data_def)
  have l: "0 < length sample_data" by (simp add: sample_data_def)
  have "cell_at (rows sample_table ! 0) ''phone_clean'' = CNA"
    using phone_with_x_is_null [of "''+1-971-533-4552x1542''"] a normalize_sample m l by blast
  moreover have "Int64_cell (to_numeric_cell (phone_lambda [] (CStr ''001-242-533-8626X385''))) = Inr CNA"
    using phone_with_x_is_null [OF b] by blast
  ultimately show ?thesis using a m normalize_sample by blast
qed

text \<open>
  C10, as amended: take a record whose phone is \<open>null\<close> or absent, in a response where some
  record has the key \<open>phone\<close>. The column \<open>phone\<close> then exists, the text of the missing
  value is "None" or "nan", which holds no \<open>x\<close>, its numeric conversion is the missing
  value, and in every table that the normalisation returns the row of that record has a
  null \<open>phone_clean\<close>.
\<close>

theorem missing_phone_is_null:
  assumes i: "i < length recs"
    and miss: "map_of (recs ! i) ''phone'' = None \<or> map_of (recs ! i) ''phone'' = Some JNull"
    and some: "''phone'' \<in> set (concat (map (map fst) recs))"
  shows "(\<forall>df. pd_DataFrame (Records recs) = Inr df \<longrightarrow>
            get_column df ''phone'' = Inr (raw_column recs ''phone'')) \<and>
         (str_in_column (raw_column recs ''phone'') (raw_column recs ''phone'' ! i) = ''nan'' \<or>
          str_in_column (raw_column recs ''phone'') (raw_column recs ''phone'' ! i) = ''None'') \<and>
         CHR ''x'' \<notin> set (lower (str_in_column (raw_column recs ''phone'')
                                   (raw_column recs ''phone'' ! i))) \<and>
         Int64_cell (to_numeric_cell (phone_lambda (raw_column recs ''phone'')
                                        (raw_column recs ''phone'' ! i))) = Inr CNA \<and>
         (\<forall>t. normalize (Records recs) = Inr t \<longrightarrow>
            cell_at (rows t ! i) ''phone_clean'' = CNA)"
proof -
  let ?col = "raw_column recs ''phone''"
  have p: "?col ! i = CNaN \<or> ?col ! i = CNone"
    using missing_cell [OF miss] by (simp add: raw_column_nth [OF i])
  have mtext: "(str_in_column ?col (?col ! i) = ''nan'' \<or> str_in_column ?col (?col ! i) = ''None'') \<and>
      CHR ''x'' \<notin> set (lower (str_in_column ?col (?col ! i))) \<and>
      to_numeric_cell (phone_lambda ?col (?col ! i)) = Missing \<and>
      Int64_cell (to_numeric_cell (phone_lambda ?col (?col ! i))) = Inr CNA"
    using missing_text [OF p] .
  have col: "get_column df ''phone'' = Inr ?col" if "pd_DataFrame (Records recs) = Inr df" for df
  proof -
    have "''phone'' \<in> set (columns df)"
      using pd_DataFrame_Records [OF that] some by (simp add: first_seen_set)
    then obtain c where c: "get_column df ''phone'' = Inr c" by (simp add: get_column_def)
    then show ?thesis using get_column_pd_DataFrame [OF that c] by (simp add: raw_column_def)
  qed
  have tab: "cell_at (rows t ! i) ''phone_clean'' = CNA" if "normalize (Records recs) = Inr t" for t
    using normalize_phone_cell [OF that i] mtext by simp
  from col mtext tab show ?thesis by blast
qed

theorem missing_phone_is_null_witness:
  "\<exists>t. normalize (Records (sample_data @ sample_without_phone)) = Inr t \<and>
       map_of ((sample_data @ sample_without_phone) ! 1) ''phone'' = None \<and>
       cell_at (rows t ! 1) ''phone_clean'' = CNA"
proof -
  let ?recs = "sample_data @ sample_without_phone"
  have i: "1 < length ?recs" by (simp add: sample_data_def sample_without_phone_def)
  have m: "map_of (?recs ! 1) ''phone'' = None"
    by (simp add: sample_data_def sample_without_phone_def)
  have s: "''phone'' \<in> set (concat (map (map fst) ?recs))"
    by (simp add: sample_data_def sample_without_phone_def)
  obtain t where t: "normalize (Records ?recs) = Inr t"
    using normalize_mixed_phone by (cases "normalize (Records ?recs)") auto
  have "cell_at (rows t ! 1) ''phone_clean'' = CNA"
    using missing_phone_is_null [OF i _ s] m t by blast
  with t m show ?thesis by blast
qed

theorem missing_phone_counterexample:
  "map_of (sample_without_phone ! 0) ''phone'' = None \<and>
   normalize (Records sample_without_phone) = Inl (KeyError ''phone'')"
  by (simp add: normalize_without_phone) (simp add: sample_without_phone_def sample_data_def)

text \<open>
  C4: the claim expects the formatting characters of a phone without \<open>x\<close> to be stripped
  and the digits to be read, so that "+1-971-533-4552" gives 19715334552. The code strips
  nothing: the text goes to the numeric conversion as it is, is no number, and is coerced to
  the missing value, although the comment of line 41 and the test call only the numbers with
  an \<open>x\<close> invalid.
\<close>

theorem formatted_phone_is_nulled:
  "CHR ''x'' \<notin> set ''+1-971-533-4552'' \<and> CHR ''X'' \<notin> set ''+1-971-533-4552'' \<and>
   map_of (sample_formatted_phone ! 0) ''phone'' = Some (JStr ''+1-971-533-4552'') \<and>
   phone_clean [CStr ''+1-971-533-4552''] = Inr [CNA] \<and>
   normalize (Records sample_formatted_phone) = Inr sample_table \<and>
   cell_at (rows sample_table ! 0) ''phone_clean'' = CNA \<and>
   cell_at (rows sample_table ! 0) ''phone_clean'' \<noteq> CInt 19715334552"
proof -
  have a: "phone_clean [CStr ''+1-971-533-4552''] = Inr [CNA]" by code_simp
  have m: "map_of (sample_formatted_phone ! 0) ''phone'' = Some (JStr ''+1-971-533-4552'')"
    by (simp add: sample_formatted_phone_def sample_without_phone_def sample_data_def)
  have c: "cell_at (rows sample_table ! 0) ''phone_clean'' = CNA"
    by (simp add: sample_table_def cell_at_def)
  from a m c normalize_formatted_phone_table show ?thesis by simp
qed

subsection \<open>Queries\<close>

text \<open>
  C6, as amended: with a non-empty filter mapping the query never fails, and the rows it
  counts and shows are exactly the rows of the table, in their order, in which every filter
  field that names a column holds a value that is not missing and is equal to the filter
  value, with no conversion between integers and strings; a missing value matches nothing.
  Filter fields that name no column are ignored.
\<close>

theorem query_filter_conjunction:
  assumes "df < length h" and "fs \<noteq> []"
  shows "\<exists>out h'. dynamic_cli_query h df n (Some fs) cols = Inr (out, h') \<and>
           total out = length (filter (keeps (h ! df) fs) (rows (h ! df))) \<and>
           (cols = None \<and> int (total out) \<le> n \<longrightarrow>
              rows (shown out) = filter (keeps (h ! df) fs) (rows (h ! df))) \<and>
           (\<forall>r. keeps (h ! df) fs r \<longleftrightarrow>
              (\<forall>(c, v)\<in>set fs. c \<in> set (columns (h ! df)) \<longrightarrow>
                 cell_at r c = v \<and> (is_CInt v \<or> is_CStr v)))"
proof -
  let ?Q = "query_frame (h ! df) (Some fs) cols"
  from dynamic_cli_query_spec [OF assms(1), of n "Some fs" cols] obtain h' where
    run: "dynamic_cli_query h df n (Some fs) cols =
      Inr (\<lparr>displaying = min n (int (length (rows ?Q))), total = length (rows ?Q),
            shown = head n ?Q\<rparr>, h')"
    by blast
  have kept: "kept_rows (h ! df) (Some fs) = filter (keeps (h ! df) fs) (rows (h ! df))"
    using assms(2) by (simp add: kept_rows_def truthy_def)
  have len: "length (rows ?Q) = length (filter (keeps (h ! df) fs) (rows (h ! df)))"
    by (simp add: query_frame_def kept)
  have all: "rows (head n ?Q) = filter (keeps (h ! df) fs) (rows (h ! df))"
    if "cols = None" "int (length (rows ?Q)) \<le> n"
    using rows_head_all [OF that(2)] that(1) by (simp add: query_frame_def kept truthy_def)
  show ?thesis
    using run len all keeps_iff [of "h ! df" fs] by auto
qed

theorem query_filter_conjunction_witness:
  "\<exists>out h'. dynamic_cli_query [query_table] 0 10
       (Some [(''department'', CStr ''Product''), (''gender'', CStr ''male''),
              (''team'', CStr ''none'')]) None = Inr (out, h') \<and>
     total out = 2 \<and> map (\<lambda>r. cell_at r ''full_name'') (rows (shown out)) =
       [CStr ''Jose Lopez'', CStr ''Ivan Petrov'']"
proof -
  let ?fs = "[(''department'', CStr ''Product''), (''gender'', CStr ''male''),
              (''team'', CStr ''none'')]"
  have k: "filter (keeps query_table ?fs) (rows query_table) =
      [rows query_table ! 0, rows query_table ! 3]"
    by code_simp
  have n: "map (\<lambda>r. cell_at r ''full_name'') [rows query_table ! 0, rows query_table ! 3] =
      [CStr ''Jose Lopez'', CStr ''Ivan Petrov'']"
    by code_simp
  from query_filter_conjunction [of 0 "[query_table]" ?fs 10 None]
  obtain out h' where
    o: "dynamic_cli_query [query_table] 0 10 (Some ?fs) None = Inr (out, h')"
       "total out = length (filter (keeps query_table ?fs) (rows query_table))"
       "int (total out) \<le> 10 \<longrightarrow>
          rows (shown out) = filter (keeps query_table ?fs) (rows query_table)"
    by auto
  have t: "total out = 2" unfolding o(2) k by simp
  have "rows (shown out) = [rows query_table ! 0, rows query_table ! 3]"
    using o(3) t unfolding k by simp
  with o(1) t n show ?thesis by auto
qed

theorem query_filter_null_counterexample:
  "cell_at (rows query_table ! 2) ''phone_clean'' = CNA \<and>
   map_sum id fst (dynamic_cli_query [query_table] 0 10 (Some [(''phone_clean'', CNA)]) None) =
     Inr \<lparr>displaying = 0, total = 0, shown = \<lparr>columns = columns query_table, rows = []\<rparr>\<rparr>"
  by code_simp

text \<open>
  C7: with a non-empty list of requested columns the query never fails; the frame it shows
  has as columns the requested names that are columns of the table, in the order of the
  request (unknown names are dropped), and each of its rows is the projection of a surviving
  row to these columns, in that order; in a well-formed table the projected fields are
  exactly the fields of the row under the requested names.
\<close>

theorem query_projection:
  assumes "df < length h" and "cs \<noteq> []"
  shows "\<exists>out h'. dynamic_cli_query h df n filters (Some cs) = Inr (out, h') \<and>
           shown out = head n \<lparr>columns = shown_columns (h ! df) cs,
                                rows = map (project (shown_columns (h ! df) cs))
                                         (kept_rows (h ! df) filters)\<rparr> \<and>
           shown_columns (h ! df) cs = filter (\<lambda>c. c \<in> set (columns (h ! df))) cs \<and>
           (\<forall>r. map fst (project (shown_columns (h ! df) cs) r) = shown_columns (h ! df) cs) \<and>
           (wf_frame (h ! df) \<longrightarrow>
              (\<forall>r\<in>set (kept_rows (h ! df) filters).
                 set (project (shown_columns (h ! df) cs) r) = {(c, v) \<in> set r. c \<in> set cs}))"
proof -
  let ?D = "h ! df"
  let ?cs = "shown_columns ?D cs"
  from dynamic_cli_query_spec [OF assms(1), of n filters "Some cs"] obtain h' where
    run: "dynamic_cli_query h df n filters (Some cs) =
      Inr (\<lparr>displaying = min n (int (length (rows (query_frame ?D filters (Some cs))))),
            total = length (rows (query_frame ?D filters (Some cs))),
            shown = head n (query_frame ?D filters (Some cs))\<rparr>, h')"
    by blast
  have q: "query_frame ?D filters (Some cs) =
      \<lparr>columns = ?cs, rows = map (project ?cs) (kept_rows ?D filters)\<rparr>"
    using assms(2) by (simp add: query_frame_def truthy_def)
  have names: "map fst (project ?cs r) = ?cs" for r
    by (simp add: project_def comp_def)
  have fields: "set (project ?cs r) = {(c, v) \<in> set r. c \<in> set cs}"
    if wf: "wf_frame ?D" and r: "r \<in> set (kept_rows ?D filters)" for r
  proof -
    have r': "r \<in> set (rows ?D)" using r kept_rows_subset by blast
    have m: "map fst r = columns ?D"
      using wf r' by (auto simp: wf_frame_def list_all_iff)
    show ?thesis
    proof (intro set_eqI iffI)
      fix p assume "p \<in> set (project ?cs r)"
      then obtain c where c: "c \<in> set cs" "c \<in> set (columns ?D)" "p = (c, cell_at r c)"
        by (auto simp: project_def shown_columns_def)
      then show "p \<in> {(c, v) \<in> set r. c \<in> set cs}"
        using wf_frame_field(1) [OF wf r'] by auto
    next
      fix p assume "p \<in> {(c, v) \<in> set r. c \<in> set cs}"
      then obtain c v where p: "p = (c, v)" "(c, v) \<in> set r" "c \<in> set cs" by auto
      then have "c \<in> set (columns ?D)" using m by (metis fst_conv image_eqI set_map)
      moreover have "cell_at r c = v" using wf_frame_field(2) [OF wf r' p(2)] .
      ultimately show "p \<in> set (project ?cs r)"
        using p by (auto simp: project_def shown_columns_def)
    qed
  qed
  show ?thesis
    using run q names fields by (auto simp: shown_columns_def)
qed

theorem query_projection_witness:
  "\<exists>out h'. dynamic_cli_query [query_table] 0 2 None
       (Some [''age'', ''bogus'', ''full_name'']) = Inr (out, h') \<and>
     shown out = \<lparr>columns = [''age'', ''full_name''],
                   rows = [[(''age'', CInt 25), (''full_name'', CStr ''Jose Lopez'')],
                           [(''age'', CInt 31), (''full_name'', CStr ''Ana Silva'')]]\<rparr> \<and>
     wf_frame query_table"
proof -
  let ?cs = "[''age'', ''bogus'', ''full_name'']"
  have v: "head 2 \<lparr>columns = shown_columns query_table ?cs,
                    rows = map (project (shown_columns query_table ?cs))
                             (kept_rows query_table None)\<rparr> =
      \<lparr>columns = [''age'', ''full_name''],
       rows = [[(''age'', CInt 25), (''full_name'', CStr ''Jose Lopez'')],
               [(''age'', CInt 31), (''full_name'', CStr ''Ana Silva'')]]\<rparr>"
    by code_simp
  have wf: "wf_frame query_table" by code_simp
  from query_projection [of 0 "[query_table]" ?cs 2 None] obtain out h' where
    "dynamic_cli_query [query_table] 0 2 None (Some ?cs) = Inr (out, h')"
    "shown out = head 2 \<lparr>columns = shown_columns query_table ?cs,
                          rows = map (project (shown_columns query_table ?cs))
                                   (kept_rows query_table None)\<rparr>"
    by auto
  with v wf show ?thesis by auto
qed

text \<open>
  C8: for a limit \<open>n\<close> that is not negative the query never fails; with \<open>M\<close> the number
  of rows that pass the filters, it shows the first \<open>min n M\<close> rows of the filtered (and
  projected) result: no row for \<open>n = 0\<close>, all \<open>M\<close> rows when \<open>n\<close> is at least \<open>M\<close>; and
  it reports the number of rows shown and the number \<open>M\<close> of matches before truncation.
\<close>

theorem query_truncation:
  assumes "df < length h" and "0 \<le> n"
  shows "\<exists>out h'. dynamic_cli_query h df n filters cols = Inr (out, h') \<and>
           total out = length (kept_rows (h ! df) filters) \<and>
           rows (shown out) =
             take (min (nat n) (total out)) (rows (query_frame (h ! df) filters cols)) \<and>
           length (rows (shown out)) = min (nat n) (total out) \<and>
           displaying out = int (length (rows (shown out))) \<and>
           (n = 0 \<longrightarrow> rows (shown out) = []) \<and>
           (int (total out) \<le> n \<longrightarrow>
              rows (shown out) = rows (query_frame (h ! df) filters cols))"
proof -
  let ?Q = "query_frame (h ! df) filters cols"
  let ?o = "\<lparr>displaying = min n (int (length (rows ?Q))), total = length (rows ?Q),
            shown = head n ?Q\<rparr>"
  from dynamic_cli_query_spec [OF assms(1), of n filters cols] obtain h' where
    run: "dynamic_cli_query h df n filters cols = Inr (?o, h')"
    by blast
  have f1: "total ?o = length (kept_rows (h ! df) filters)"
    by (simp add: length_query_frame)
  have f2: "rows (shown ?o) = take (min (nat n) (total ?o)) (rows ?Q)"
    using assms(2) by (auto simp: head_def min_def)
  have f3: "length (rows (shown ?o)) = min (nat n) (total ?o)"
    using assms(2) by (auto simp: head_def min_def)
  have f4: "displaying ?o = int (length (rows (shown ?o)))"
    using assms(2) by (auto simp: head_def min_def)
  have f5: "n = 0 \<longrightarrow> rows (shown ?o) = []"
    by (simp add: head_def)
  have f6: "int (total ?o) \<le> n \<longrightarrow> rows (shown ?o) = rows ?Q"
    by (simp add: head_def)
  from run f1 f2 f3 f4 f5 f6 show ?thesis by blast
qed

theorem query_truncation_witness:
  "\<exists>out h' out0 h0. dynamic_cli_query [query_table] 0 2 (Some [(''gender'', CStr ''male'')]) None =
       Inr (out, h') \<and>
     total out = 3 \<and> displaying out = 2 \<and>
     map (\<lambda>r. cell_at r ''full_name'') (rows (shown out)) = [CStr ''Jose Lopez'', CStr ''Li Wei''] \<and>
     dynamic_cli_query [query_table] 0 0 (Some [(''gender'', CStr ''male'')]) None =
       Inr (out0, h0) \<and> rows (shown out0) = [] \<and> total out0 = 3"
proof -
  let ?f = "Some [(''gender'', CStr ''male'')]"
  have k: "length (kept_rows query_table ?f) = 3" by code_simp
  have q: "map (\<lambda>r. cell_at r ''full_name'') (take 2 (rows (query_frame query_table ?f None))) =
      [CStr ''Jose Lopez'', CStr ''Li Wei'']"
    by code_simp
  from query_truncation [of 0 "[query_table]" 2 ?f None] obtain out h' where
    a: "dynamic_cli_query [query_table] 0 2 ?f None = Inr (out, h')"
       "total out = length (kept_rows query_table ?f)"
       "rows (shown out) = take (min (nat 2) (total out)) (rows (query_frame query_table ?f None))"
       "displaying out = int (length (rows (shown out)))"
       "length (rows (shown out)) = min (nat 2) (total out)"
    by auto
  from query_truncation [of 0 "[query_table]" 0 ?f None] obtain out0 h0 where
    b: "dynamic_cli_query [query_table] 0 0 ?f None = Inr (out0, h0)"
       "total out0 = length (kept_rows query_table ?f)"
       "rows (shown out0) = []"
    by auto
  have t: "total out = 3" "total out0 = 3" using a(2) b(2) k by simp_all
  have d: "displaying out = 2" using a(4,5) t by simp
  have r: "rows (shown out) = take 2 (rows (query_frame query_table ?f None))"
    using a(3) t by simp
  have q': "map (\<lambda>r. cell_at r ''full_name'') (rows (shown out)) =
      [CStr ''Jose Lopez'', CStr ''Li Wei'']"
    using q by (simp only: r)
  from a(1) t(1) d q' b(1) b(3) t(2) show ?thesis by (intro exI conjI)
qed

text \<open>
  C9: a query allocates the frames it builds and overwrites nothing: after it, every object
  of the store, the queried table among them, is what it was before; and the same query
  run again, on the store that the first run left, gives the same output.
\<close>

theorem query_idempotent_no_mutation:
  assumes "df < length h"
  shows "\<exists>out h' h''. dynamic_cli_query h df n filters cols = Inr (out, h') \<and>
           dynamic_cli_query h' df n filters cols = Inr (out, h'') \<and>
           h' ! df = h ! df \<and> h'' ! df = h ! df \<and>
           (\<forall>r<length h. h' ! r = h ! r \<and> h'' ! r = h ! r)"
proof -
  let ?out = "\<lambda>D. \<lparr>displaying = min n (int (length (rows (query_frame D filters cols)))),
                    total = length (rows (query_frame D filters cols)),
                    shown = head n (query_frame D filters cols)\<rparr>"
  from dynamic_cli_query_spec [OF assms, of n filters cols] obtain h' where
    a: "dynamic_cli_query h df n filters cols = Inr (?out (h ! df), h')"
       "length h \<le> length h'" "take (length h) h' = h"
    by blast
  have same1: "h' ! r = h ! r" if "r < length h" for r
    using that a(3) by (metis nth_take)
  have df': "df < length h'" using assms a(2) by simp
  from dynamic_cli_query_spec [OF df', of n filters cols] obtain h'' where
    b: "dynamic_cli_query h' df n filters cols = Inr (?out (h' ! df), h'')"
       "length h' \<le> length h''" "take (length h') h'' = h'"
    by blast
  have same2: "h'' ! r = h ! r" if "r < length h" for r
  proof -
    have "r < length h'" using that a(2) by simp
    then have "h'' ! r = h' ! r" using b(3) by (metis nth_take)
    then show ?thesis using same1 [OF that] by simp
  qed
  have "dynamic_cli_query h' df n filters cols = Inr (?out (h ! df), h'')"
    using b(1) same1 [OF assms] by simp
  with a(1) same1 same2 assms show ?thesis by blast
qed

theorem query_idempotent_no_mutation_witness:
  "\<exists>out h' h''.
     dynamic_cli_query [query_table] 0 1 (Some [(''department'', CStr ''Product'')])
       (Some [''full_name'']) = Inr (out, h') \<and>
     dynamic_cli_query h' 0 1 (Some [(''department'', CStr ''Product'')])
       (Some [''full_name'']) = Inr (out, h'') \<and>
     h' ! 0 = query_table \<and> h'' ! 0 = query_table \<and> length [query_table] < length h'"
proof -
  let ?f = "Some [(''department'', CStr ''Product'')]"
  let ?c = "Some [''full_name'']"
  have l: "(case dynamic_cli_query [query_table] 0 1 ?f ?c of
      Inr (out, h') \<Rightarrow> length h' = 5 | Inl e \<Rightarrow> False)"
    by code_simp
  from query_idempotent_no_mutation [of 0 "[query_table]" 1 ?f ?c] obtain out h' h'' where
    a: "dynamic_cli_query [query_table] 0 1 ?f ?c = Inr (out, h')"
       "dynamic_cli_query h' 0 1 ?f ?c = Inr (out, h'')"
       "h' ! 0 = query_table" "h'' ! 0 = query_table"
    by auto
  have "length [query_table] < length h'" using l a(1) by simp
  with a show ?thesis by blast
qed

end
